theory Spec2Isabelle
  imports Complex_Main "HOL-Library.Sublist" "HOL-Library.AList"
begin

section \<open>JavaScript string operations used by the relay\<close>

text \<open>
  Strings are byte lists: a JavaScript string is held as its UTF-8 bytes.  Case folding is
  the ASCII part of \<^verbatim>\<open>String.prototype.toLowerCase\<close> and of the \<^verbatim>\<open>/i\<close> flag: all
  needles the relay searches for are ASCII, and no non-ASCII code point folds to one of
  their letters.
\<close>

definition lower_char :: "char \<Rightarrow> char" where
  "lower_char c =
     (case map_of (zip ''ABCDEFGHIJKLMNOPQRSTUVWXYZ'' ''abcdefghijklmnopqrstuvwxyz'') c of
        Some d \<Rightarrow> d
      | None \<Rightarrow> c)"

definition toLowerCase :: "string \<Rightarrow> string" where
  "toLowerCase s = map lower_char s"

text \<open>\<^verbatim>\<open>s.includes(t)\<close>: \<open>t\<close> occurs in \<open>s\<close> as a contiguous block.\<close>

fun str_includes :: "string \<Rightarrow> string \<Rightarrow> bool" where
  "str_includes [] t = (t = [])"
| "str_includes (c # cs) t = (prefix t (c # cs) \<or> str_includes cs t)"

text \<open>\<^verbatim>\<open>s.split(d)\<close> for a one-character separator: never the empty list.\<close>

fun split_on :: "char \<Rightarrow> string \<Rightarrow> string list" where
  "split_on d [] = [[]]"
| "split_on d (c # cs) =
     (if c = d then [] # split_on d cs
      else (case split_on d cs of
              [] \<Rightarrow> [[c]]
            | w # ws \<Rightarrow> (c # w) # ws))"

text \<open>\<^verbatim>\<open>xs.join(d)\<close>.\<close>

fun join_with :: "string \<Rightarrow> string list \<Rightarrow> string" where
  "join_with d [] = []"
| "join_with d [x] = x"
| "join_with d (x # y # ys) = x @ d @ join_with d (y # ys)"

text \<open>
  The characters \<^verbatim>\<open>String.prototype.trim\<close> removes, each as its UTF-8 bytes: the white
  space TAB, VT, FF, SP, NBSP (U+00A0), U+1680, U+2000 to U+200A, U+202F, U+205F, U+3000
  and U+FEFF, and the line terminators LF, CR, U+2028 and U+2029.
\<close>

definition white_space :: "string list" where
  "white_space =
     [[CHR 0x09], [CHR 0x0A], [CHR 0x0B], [CHR 0x0C], [CHR 0x0D], [CHR 0x20],
      [CHR 0xC2, CHR 0xA0],
      [CHR 0xE1, CHR 0x9A, CHR 0x80],
      [CHR 0xE2, CHR 0x80, CHR 0x80], [CHR 0xE2, CHR 0x80, CHR 0x81],
      [CHR 0xE2, CHR 0x80, CHR 0x82], [CHR 0xE2, CHR 0x80, CHR 0x83],
      [CHR 0xE2, CHR 0x80, CHR 0x84], [CHR 0xE2, CHR 0x80, CHR 0x85],
      [CHR 0xE2, CHR 0x80, CHR 0x86], [CHR 0xE2, CHR 0x80, CHR 0x87],
      [CHR 0xE2, CHR 0x80, CHR 0x88], [CHR 0xE2, CHR 0x80, CHR 0x89],
      [CHR 0xE2, CHR 0x80, CHR 0x8A],
      [CHR 0xE2, CHR 0x80, CHR 0xA8], [CHR 0xE2, CHR 0x80, CHR 0xA9],
      [CHR 0xE2, CHR 0x80, CHR 0xAF],
      [CHR 0xE2, CHR 0x81, CHR 0x9F],
      [CHR 0xE3, CHR 0x80, CHR 0x80],
      [CHR 0xEF, CHR 0xBB, CHR 0xBF]]"

text \<open>
  \<open>strip_leading ws s\<close> removes from the front of \<open>s\<close> every leading occurrence of a
  member of \<open>ws\<close>.  \<^verbatim>\<open>s.trim()\<close> does so at both ends; at the end of a well-formed string
  the bytes of a white-space character can only be that character.
\<close>

fun strip_leading :: "string list \<Rightarrow> string \<Rightarrow> string" where
  "strip_leading ws [] = []"
| "strip_leading ws (c # cs) =
     (case find (\<lambda>w. w \<noteq> [] \<and> prefix w (c # cs)) ws of
        None \<Rightarrow> c # cs
      | Some w \<Rightarrow> strip_leading ws (drop (length w - 1) cs))"

definition trim :: "string \<Rightarrow> string" where
  "trim s = rev (strip_leading (map rev white_space) (rev (strip_leading white_space s)))"


section \<open>Beta-feature selector (betaHeaderManager.js)\<close>

datatype feature_rule = Models "string list" | Patterns "string list" | AlwaysInclude

text \<open>
  \<^verbatim>\<open>FEATURE_RULES\<close>.  A pattern \<^verbatim>\<open>/sonnet/i\<close> is kept as its lower-case text; testing it is a
  case-insensitive substring search.
\<close>

definition FEATURE_RULES :: "(string \<times> feature_rule) list" where
  "FEATURE_RULES =
     [(''interleaved-thinking-2025-05-14'',
         Models [''claude-sonnet-4-20250514'', ''claude-opus-4-20250514'',
                 ''claude-opus-4-1-20250805'']),
      (''claude-code-20250219'', Patterns [''sonnet'', ''opus'']),
      (''oauth-2025-04-20'', AlwaysInclude),
      (''fine-grained-tool-streaming-2025-05-14'', AlwaysInclude),
      (''token-counting-2024-11-01'', AlwaysInclude)]"

definition FEATURE_ORDER :: "string list" where
  "FEATURE_ORDER =
     [''claude-code-20250219'',
      ''oauth-2025-04-20'',
      ''interleaved-thinking-2025-05-14'',
      ''fine-grained-tool-streaming-2025-05-14'',
      ''context-1m-2025-08-07'',
      ''token-counting-2024-11-01'']"

definition shouldIncludeFeature :: "string \<Rightarrow> string \<Rightarrow> bool" where
  "shouldIncludeFeature feature mdl =
     (case map_of FEATURE_RULES feature of
        None \<Rightarrow> True
      | Some AlwaysInclude \<Rightarrow> True
      | Some (Models ms) \<Rightarrow> mdl \<in> set ms
      | Some (Patterns ps) \<Rightarrow> list_ex (\<lambda>p. str_includes (toLowerCase mdl) p) ps)"

text \<open>A JavaScript \<^verbatim>\<open>Set\<close> of strings in insertion order: adding a member again changes nothing.\<close>

definition set_add :: "string \<Rightarrow> string list \<Rightarrow> string list" where
  "set_add x xs = (if x \<in> set xs then xs else xs @ [x])"

text \<open>The \<^verbatim>\<open>forEach\<close> over the comma-separated base header.\<close>

fun add_base_features :: "string \<Rightarrow> string list \<Rightarrow> string list \<Rightarrow> string list" where
  "add_base_features mdl [] features = features"
| "add_base_features mdl (feature # rest) features =
     (let trimmed = trim feature
      in add_base_features mdl rest
           (if trimmed \<noteq> [] \<and> shouldIncludeFeature trimmed mdl
            then set_add trimmed features else features))"

record request_options =
  customPath :: "string option"
  betaHeader :: "string option"

definition isCountTokensPath :: "request_options \<Rightarrow> bool" where
  "isCountTokensPath opts =
     (case customPath opts of
        None \<Rightarrow> False
      | Some p \<Rightarrow> p \<noteq> [] \<and> str_includes p ''count_tokens'')"

text \<open>The feature set of \<^verbatim>\<open>buildBetaHeader\<close> after its three sources have been read.\<close>

definition collect_features :: "string \<Rightarrow> string \<Rightarrow> string \<Rightarrow> request_options \<Rightarrow> string list" where
  "collect_features mdl baseBetaHeader clientBetaHeader opts =
     (let f1 = (if baseBetaHeader \<noteq> []
                then add_base_features mdl (split_on (CHR '','') baseBetaHeader) []
                else []);
          f2 = (if clientBetaHeader \<noteq> [] \<and> str_includes clientBetaHeader ''context-1m-2025-08-07''
                then set_add ''context-1m-2025-08-07'' f1 else f1);
          f3 = (if isCountTokensPath opts then set_add ''token-counting-2024-11-01'' f2 else f2)
      in f3)"

text \<open>\<^verbatim>\<open>orderedFeatures\<close>: the two loops, over the fixed order and over the set.\<close>

definition orderedFeatures :: "string list \<Rightarrow> string list" where
  "orderedFeatures features =
     filter (\<lambda>f. f \<in> set features) FEATURE_ORDER
     @ filter (\<lambda>f. f \<notin> set FEATURE_ORDER) features"

text \<open>\<^verbatim>\<open>buildBetaHeader\<close>: \<open>None\<close> is the \<^verbatim>\<open>null\<close> returned for an empty result.\<close>

definition buildBetaHeader :: "string \<Rightarrow> string \<Rightarrow> string \<Rightarrow> request_options \<Rightarrow> string option" where
  "buildBetaHeader mdl baseBetaHeader clientBetaHeader opts =
     (let result = join_with '','' (orderedFeatures
                      (collect_features mdl baseBetaHeader clientBetaHeader opts))
      in if result \<noteq> [] then Some result else None)"

text \<open>
  \<^verbatim>\<open>getBetaHeader\<close>: the base header is the request option when it is defined, the configured
  one otherwise; the client's header is read under the key \<^verbatim>\<open>anthropic-beta\<close>.
\<close>

definition getBetaHeader ::
  "string \<Rightarrow> string \<Rightarrow> request_options \<Rightarrow> (string \<rightharpoonup> string) \<Rightarrow> string option" where
  "getBetaHeader config_betaHeader mdl opts clientHeaders =
     (let baseBetaHeader = (case betaHeader opts of Some b \<Rightarrow> b | None \<Rightarrow> config_betaHeader);
          clientBetaHeader = (case clientHeaders ''anthropic-beta'' of Some c \<Rightarrow> c | None \<Rightarrow> [])
      in buildBetaHeader mdl baseBetaHeader clientBetaHeader opts)"

section \<open>Outbound request head (\<^verbatim>\<open>_makeClaudeRequest\<close>, \<^verbatim>\<open>_makeClaudeStreamRequestWithUsageCapture\<close>)\<close>

definition USER_AGENT :: string where
  "USER_AGENT = ''claude-cli/1.0.110 (external, cli)''"

definition FIXED_HEADERS :: "(string \<times> string) list" where
  "FIXED_HEADERS =
     [(''Content-Type'', ''application/json''),
      (''anthropic-version'', ''2023-06-01''),
      (''accept'', ''application/json''),
      (''x-stainless-retry-count'', ''0''),
      (''x-stainless-timeout'', ''600''),
      (''x-stainless-lang'', ''js''),
      (''x-stainless-package-version'', ''0.60.0''),
      (''x-stainless-os'', ''MacOS''),
      (''x-stainless-arch'', ''arm64''),
      (''x-stainless-runtime'', ''node''),
      (''x-stainless-runtime-version'', ''v20.18.1''),
      (''anthropic-dangerous-direct-browser-access'', ''true''),
      (''x-app'', ''cli''),
      (''accept-language'', ''*''),
      (''sec-fetch-mode'', ''cors''),
      (''accept-encoding'', ''gzip, deflate'')]"

definition STREAM_HEADER :: "(string \<times> string) list" where
  "STREAM_HEADER = [(''x-stainless-helper-method'', ''stream'')]"

text \<open>What \<^verbatim>\<open>randomHeaderGenerator.generate()\<close> returns; its value is an input of the model.\<close>

record random_headers =
  userAgent :: string
  packageVersion :: string
  os :: string
  arch :: string
  runtime :: string
  runtimeVersion :: string

text \<open>
  The account fields the relay reads.  \<open>banMode\<close> is compared with the string \<^verbatim>\<open>'true'\<close>;
  an absent or empty \<open>unifiedClientId\<close> is the empty string.
\<close>

record claude_account =
  banMode :: string
  useUnifiedClientId :: bool
  unifiedClientId :: string

record request_head =
  head_headers :: "string \<rightharpoonup> string"
  head_path :: string

text \<open>
  The part of both request functions between the path selection and the final URL.
  \<open>requestPath\<close> is the \<^verbatim>\<open>pathname\<close> the URL parser returned (of the API URL, or of
  \<^verbatim>\<open>customPath\<close> when one is given); \<open>stream_headers\<close> is \<^verbatim>\<open>STREAM_HEADER\<close> in the streaming
  function and empty in the other; \<open>body_model\<close> is \<^verbatim>\<open>body.model\<close>.
\<close>

definition request_head_of ::
  "(string \<times> string) list \<Rightarrow> string \<Rightarrow> string \<Rightarrow> claude_account option \<Rightarrow> random_headers \<Rightarrow>
   string \<Rightarrow> string option \<Rightarrow> request_options \<Rightarrow> (string \<rightharpoonup> string) \<Rightarrow> string \<Rightarrow> request_head" where
  "request_head_of stream_headers config_betaHeader apiVersion account randomHeaders
       accessToken body_model opts clientHeaders requestPath =
     (let headers0 = (map_of (FIXED_HEADERS @ stream_headers))
                       (''Authorization'' \<mapsto> ''Bearer '' @ accessToken,
                        ''anthropic-version'' \<mapsto> apiVersion,
                        ''User-Agent'' \<mapsto> USER_AGENT);
          headers1 = (case account of
                        None \<Rightarrow> headers0
                      | Some a \<Rightarrow>
                          if banMode a = ''true''
                          then headers0
                                 (''User-Agent'' \<mapsto> userAgent randomHeaders,
                                  ''x-stainless-package-version'' \<mapsto> packageVersion randomHeaders,
                                  ''x-stainless-os'' \<mapsto> os randomHeaders,
                                  ''x-stainless-arch'' \<mapsto> arch randomHeaders,
                                  ''x-stainless-runtime'' \<mapsto> runtime randomHeaders,
                                  ''x-stainless-runtime-version'' \<mapsto> runtimeVersion randomHeaders)
                          else headers0);
          mdl = (case body_model of
                     None \<Rightarrow> ''unknown''
                   | Some m \<Rightarrow> if m \<noteq> [] then m else ''unknown'')
      in case getBetaHeader config_betaHeader mdl opts clientHeaders of
           Some b \<Rightarrow> \<lparr>head_headers = headers1(''anthropic-beta'' \<mapsto> b),
                      head_path = requestPath @ ''?beta=true''\<rparr>
         | None \<Rightarrow> \<lparr>head_headers = headers1, head_path = requestPath\<rparr>)"

definition makeClaudeRequest_head ::
  "string \<Rightarrow> string \<Rightarrow> claude_account option \<Rightarrow> random_headers \<Rightarrow>
   string \<Rightarrow> string option \<Rightarrow> request_options \<Rightarrow> (string \<rightharpoonup> string) \<Rightarrow> string \<Rightarrow> request_head" where
  "makeClaudeRequest_head = request_head_of []"

definition makeClaudeStreamRequest_head ::
  "string \<Rightarrow> string \<Rightarrow> claude_account option \<Rightarrow> random_headers \<Rightarrow>
   string \<Rightarrow> string option \<Rightarrow> request_options \<Rightarrow> (string \<rightharpoonup> string) \<Rightarrow> string \<Rightarrow> request_head" where
  "makeClaudeStreamRequest_head = request_head_of STREAM_HEADER"

text \<open>A token that survives the comma split and the trim: not empty, no comma.\<close>

definition token_ok :: "string \<Rightarrow> bool" where
  "token_ok t = (t \<noteq> [] \<and> CHR '','' \<notin> set t)"

section \<open>Request bodies and the body preparer (\<^verbatim>\<open>_processRequestBody\<close>)\<close>

text \<open>
  A request body is modelled with the shape the relay expects: the fields it reads, each with
  the type the vendor API gives it.  A field that JSON allows to be \<^verbatim>\<open>null\<close> and that the
  code tests against \<^verbatim>\<open>null\<close> has the three-valued type \<open>json_field\<close>.
\<close>

datatype 'a json_field = Absent | Null | Value 'a

record cache_control =
  cc_type :: string
  ttl :: "string option"

datatype block_content = NoContent | StrContent string | OtherContent

record content_block =
  block_type :: string
  block_text :: "string option"
  block_content :: block_content
  cache_control :: "cache_control option"

datatype message_content = MsgString string | MsgBlocks "content_block list"

record message =
  role :: string
  content :: message_content

text \<open>\<open>SysOther\<close> is a truthy value that is neither a string nor an array.\<close>

datatype system_field = SysAbsent | SysString string | SysBlocks "content_block list" | SysOther

record metadata =
  user_id :: "string option"

record thinking_config =
  thinking_type :: string
  budget_tokens :: int

text \<open>\<open>modelVariant\<close> is the body's \<^verbatim>\<open>_modelVariant\<close> property, which a client can send too.\<close>

record request_body =
  model :: "string option"
  modelVariant :: "string option"
  max_tokens :: "int option"
  system :: system_field
  messages :: "message list"
  metadata :: "metadata option"
  temperature :: "real json_field"
  top_p :: "real json_field"
  thinking :: "thinking_config option"
  stream :: "bool option"

text \<open>JavaScript truthiness of an optional string and of an optional number.\<close>

definition truthy_str :: "string option \<Rightarrow> bool" where
  "truthy_str s = (case s of None \<Rightarrow> False | Some v \<Rightarrow> v \<noteq> [])"

definition truthy_num :: "int option \<Rightarrow> bool" where
  "truthy_num n = (case n of None \<Rightarrow> False | Some v \<Rightarrow> v \<noteq> 0)"

text \<open>\<^verbatim>\<open>s.lastIndexOf(c)\<close>, with \<open>None\<close> for \<^verbatim>\<open>-1\<close>.\<close>

definition lastIndexOf :: "char \<Rightarrow> string \<Rightarrow> nat option" where
  "lastIndexOf c s =
     (if c \<in> set s then Some (length s - 1 - length (takeWhile (\<lambda>x. x \<noteq> c) (rev s)))
      else None)"

text \<open>\<^verbatim>\<open>s.replaceAll(t, '')\<close> for a non-empty \<open>t\<close>: occurrences are removed from left to right.\<close>

function remove_all :: "string \<Rightarrow> string \<Rightarrow> string" where
  "remove_all t [] = []"
| "remove_all t (c # cs) =
     (if t \<noteq> [] \<and> prefix t (c # cs) then remove_all t (drop (length t) (c # cs))
      else c # remove_all t cs)"
  by pat_completeness auto
termination
  by (relation "measure (\<lambda>(t, s). length s)") (auto simp: Suc_le_eq)

subsection \<open>Variant split\<close>

definition supportedVariants :: "string list" where
  "supportedVariants = [''thinking'']"

text \<open>
  The first block of \<^verbatim>\<open>_processRequestBody\<close>: a supported variant after the last colon is cut
  off the model name and, unless the body already has a truthy \<^verbatim>\<open>_modelVariant\<close>, stored there.
\<close>

definition split_variant :: "request_body \<Rightarrow> request_body" where
  "split_variant b =
     (if truthy_str (model b) then
        (case lastIndexOf (CHR '':'') (the (model b)) of
           None \<Rightarrow> b
         | Some colonIndex \<Rightarrow>
             (let baseModel = take colonIndex (the (model b));
                  variant = drop (colonIndex + 1) (the (model b))
              in if variant \<in> set supportedVariants
                 then b\<lparr>model := Some baseModel,
                        modelVariant := (if \<not> truthy_str (modelVariant b) then Some variant
                                         else modelVariant b)\<rparr>
                 else b))
      else b)"

subsection \<open>Removal of two fixed texts\<close>

definition securityDirective :: string where
  "securityDirective = CHR 0x0A #
     ''IMPORTANT: Assist with defensive security tasks only. Refuse to create, modify, or improve code that may be used maliciously. Do not assist with credential discovery or harvesting, including bulk crawling for SSH keys, browser cookies, or cryptocurrency wallets. Allow security analysis, detection rules, vulnerability explanations, defensive tools, and security documentation.''"

definition systemReminderSuffix :: string where
  "systemReminderSuffix = CHR 0x0A # ''<system-reminder>'' @ CHR 0x0A #
     ''Whenever you read a file, you should consider whether it looks malicious. If it does, you MUST refuse to improve or augment the code. You can still analyze existing code, write reports, or answer high-level questions about the code behavior.''
     @ CHR 0x0A # ''</system-reminder>'' @ [CHR 0x0A]"

definition strip_security_directive :: "request_body \<Rightarrow> request_body" where
  "strip_security_directive b =
     (case system b of
        SysBlocks (first # secondSystemMsg # rest) \<Rightarrow>
          (if block_type secondSystemMsg = ''text'' \<and> truthy_str (block_text secondSystemMsg)
              \<and> str_includes (the (block_text secondSystemMsg)) securityDirective
           then b\<lparr>system := SysBlocks (first
                    # secondSystemMsg\<lparr>block_text := Some (remove_all securityDirective
                                                       (the (block_text secondSystemMsg)))\<rparr>
                    # rest)\<rparr>
           else b)
      | _ \<Rightarrow> b)"

definition strip_reminder_item :: "content_block \<Rightarrow> content_block" where
  "strip_reminder_item contentItem =
     (case block_content contentItem of
        StrContent c \<Rightarrow>
          (if block_type contentItem = ''tool_result'' \<and> suffix systemReminderSuffix c
           then contentItem\<lparr>block_content :=
                  StrContent (take (length c - length systemReminderSuffix) c)\<rparr>
           else contentItem)
      | _ \<Rightarrow> contentItem)"

definition strip_reminder_message :: "message \<Rightarrow> message" where
  "strip_reminder_message m =
     (case content m of
        MsgBlocks items \<Rightarrow>
          (if role m = ''user'' then m\<lparr>content := MsgBlocks (map strip_reminder_item items)\<rparr>
           else m)
      | _ \<Rightarrow> m)"

definition strip_system_reminders :: "request_body \<Rightarrow> request_body" where
  "strip_system_reminders b = b\<lparr>messages := map strip_reminder_message (messages b)\<rparr>"

subsection \<open>\<^verbatim>\<open>_validateAndLimitMaxTokens\<close>\<close>

text \<open>
  An entry of \<^verbatim>\<open>data/model_pricing.json\<close>.  The table is an input of the model: \<open>None\<close>
  stands for a missing or unreadable file, for which the function returns without a change.
\<close>

record model_config =
  cfg_max_tokens :: "int option"
  cfg_max_output_tokens :: "int option"

type_synonym pricing_table = "string \<rightharpoonup> model_config"

definition validateAndLimitMaxTokens :: "pricing_table option \<Rightarrow> request_body \<Rightarrow> request_body" where
  "validateAndLimitMaxTokens table b =
     (if \<not> truthy_num (max_tokens b) then b
      else case table of
        None \<Rightarrow> b
      | Some pricingData \<Rightarrow>
          (let mdl = (if truthy_str (model b) then the (model b) else ''claude-sonnet-4-20250514'')
           in case pricingData mdl of
                None \<Rightarrow> b
              | Some modelConfig \<Rightarrow>
                  (let maxLimit = (if truthy_num (cfg_max_tokens modelConfig)
                                   then cfg_max_tokens modelConfig
                                   else cfg_max_output_tokens modelConfig)
                   in if \<not> truthy_num maxLimit then b
                      else if the (max_tokens b) > the maxLimit
                      then b\<lparr>max_tokens := maxLimit\<rparr>
                      else b)))"

subsection \<open>\<^verbatim>\<open>_stripTtlFromCacheControl\<close>\<close>

definition strip_ttl_item :: "content_block \<Rightarrow> content_block" where
  "strip_ttl_item item =
     (case cache_control item of
        None \<Rightarrow> item
      | Some cc \<Rightarrow> if truthy_str (ttl cc) then item\<lparr>cache_control := Some (cc\<lparr>ttl := None\<rparr>)\<rparr>
                   else item)"

definition processContentArray :: "content_block list \<Rightarrow> content_block list" where
  "processContentArray contentArray = map strip_ttl_item contentArray"

definition strip_ttl_message :: "message \<Rightarrow> message" where
  "strip_ttl_message m =
     (case content m of
        MsgBlocks items \<Rightarrow> m\<lparr>content := MsgBlocks (processContentArray items)\<rparr>
      | _ \<Rightarrow> m)"

definition stripTtlFromCacheControl :: "request_body \<Rightarrow> request_body" where
  "stripTtlFromCacheControl b =
     b\<lparr>system := (case system b of
                    SysBlocks bs \<Rightarrow> SysBlocks (processContentArray bs)
                  | s \<Rightarrow> s),
       messages := map strip_ttl_message (messages b)\<rparr>"

subsection \<open>System prompts\<close>

definition claudeCodeSystemPrompt :: string where
  "claudeCodeSystemPrompt = ''You are a Claude agent, built on Anthropic's Claude Agent SDK.''"

definition claudeCodePrompt :: content_block where
  "claudeCodePrompt =
     \<lparr>block_type = ''text'', block_text = Some claudeCodeSystemPrompt, block_content = NoContent,
      cache_control = Some \<lparr>cc_type = ''ephemeral'', ttl = None\<rparr>\<rparr>"

definition text_block :: "string \<Rightarrow> content_block" where
  "text_block t = \<lparr>block_type = ''text'', block_text = Some t, block_content = NoContent,
                   cache_control = None\<rparr>"

definition is_claude_code_item :: "content_block \<Rightarrow> bool" where
  "is_claude_code_item item = (block_type item = ''text'' \<and> block_text item = Some claudeCodeSystemPrompt)"

text \<open>The branch taken when the validator does not recognise a real Claude Code request.\<close>

definition inject_claude_code_prompt :: "request_body \<Rightarrow> request_body" where
  "inject_claude_code_prompt b =
     (case system b of
        SysString s \<Rightarrow>
          (if s = [] then b\<lparr>system := SysBlocks [claudeCodePrompt]\<rparr>
           else if trim s = claudeCodeSystemPrompt then b\<lparr>system := SysBlocks [claudeCodePrompt]\<rparr>
           else b\<lparr>system := SysBlocks [claudeCodePrompt, text_block s]\<rparr>)
      | SysBlocks bs \<Rightarrow>
          (let isFirstItemClaudeCode = (case bs of [] \<Rightarrow> False
                                        | firstItem # _ \<Rightarrow> is_claude_code_item firstItem)
           in if \<not> isFirstItemClaudeCode
              then b\<lparr>system := SysBlocks (claudeCodePrompt
                       # filter (\<lambda>item. \<not> is_claude_code_item item) bs)\<rparr>
              else b)
      | SysOther \<Rightarrow> b\<lparr>system := SysBlocks [claudeCodePrompt]\<rparr>
      | SysAbsent \<Rightarrow> b\<lparr>system := SysBlocks [claudeCodePrompt]\<rparr>)"

text \<open>The configured system prompt (\<^verbatim>\<open>this.systemPrompt\<close>; empty when not configured).\<close>

definition apply_system_prompt :: "string \<Rightarrow> request_body \<Rightarrow> request_body" where
  "apply_system_prompt sysPrompt b =
     (if sysPrompt \<noteq> [] \<and> trim sysPrompt \<noteq> [] then
        (case system b of
           SysBlocks bs \<Rightarrow>
             (let hasSystemPrompt =
                    list_ex (\<lambda>item. truthy_str (block_text item) \<and> block_text item = Some sysPrompt) bs
              in if \<not> hasSystemPrompt
                 then b\<lparr>system := SysBlocks (bs @ [text_block sysPrompt])\<rparr>
                 else b)
         | _ \<Rightarrow> b\<lparr>system := SysBlocks [text_block sysPrompt]\<rparr>)
      else
        (case system b of
           SysBlocks bs \<Rightarrow>
             (let hasValidContent =
                    list_ex (\<lambda>item. truthy_str (block_text item) \<and> trim (the (block_text item)) \<noteq> []) bs
              in if \<not> hasValidContent then b\<lparr>system := SysAbsent\<rparr> else b)
         | _ \<Rightarrow> b))"

subsection \<open>\<^verbatim>\<open>top_p\<close>\<close>

definition delete_top_p :: "request_body \<Rightarrow> request_body" where
  "delete_top_p b = (case top_p b of Value v \<Rightarrow> b\<lparr>top_p := Absent\<rparr> | _ \<Rightarrow> b)"

subsection \<open>\<^verbatim>\<open>_replaceClientId\<close>\<close>

definition is_hex :: "char \<Rightarrow> bool" where
  "is_hex c = (c \<in> set ''abcdef0123456789'')"

definition is_hex_dash :: "char \<Rightarrow> bool" where
  "is_hex_dash c = (is_hex c \<or> c = CHR ''-'')"

text \<open>
  The match of \<^verbatim>\<open>/^user_[a-f0-9]{64}(_account__session_[a-f0-9-]{36})$/\<close>: the captured group
  when the whole string has that form.
\<close>

definition user_id_match :: "string \<Rightarrow> string option" where
  "user_id_match userId =
     (if length userId = 123
         \<and> take 5 userId = ''user_''
         \<and> list_all is_hex (take 64 (drop 5 userId))
         \<and> take 18 (drop 69 userId) = ''_account__session_''
         \<and> list_all is_hex_dash (drop 87 userId)
      then Some (drop 69 userId) else None)"

text \<open>\<open>sessionId\<close> is the value \<^verbatim>\<open>crypto.randomUUID()\<close> returns when it is called.\<close>

definition replaceClientId :: "string \<Rightarrow> string \<Rightarrow> request_body \<Rightarrow> request_body" where
  "replaceClientId sessionId unifiedId b =
     (if unifiedId = [] then b
      else
        (let md = (case metadata b of None \<Rightarrow> \<lparr>user_id = None\<rparr> | Some m \<Rightarrow> m)
         in if \<not> truthy_str (user_id md)
            then b\<lparr>metadata := Some (md\<lparr>user_id :=
                     Some (''user_'' @ unifiedId @ ''_account__session_'' @ sessionId)\<rparr>)\<rparr>
            else (case user_id_match (the (user_id md)) of
                    Some group1 \<Rightarrow>
                      b\<lparr>metadata := Some (md\<lparr>user_id := Some (''user_'' @ unifiedId @ group1)\<rparr>)\<rparr>
                  | None \<Rightarrow> b\<lparr>metadata := Some md\<rparr>)))"

subsection \<open>The preparer\<close>

text \<open>
  What the preparer reads besides the body: the configured system prompt, the pricing table,
  the verdict of \<^verbatim>\<open>ClaudeCodeValidator.validate\<close> and the next random UUID.
\<close>

record preparer_env =
  systemPrompt :: string
  pricing :: "pricing_table option"
  validate :: "request_body \<Rightarrow> (string \<rightharpoonup> string) \<Rightarrow> bool"
  randomUUID :: string

definition apply_thinking :: "string option \<Rightarrow> request_body \<Rightarrow> request_body" where
  "apply_thinking variant b =
     (if variant = Some ''thinking''
      then (let budgetTokens = (if truthy_num (max_tokens b) then the (max_tokens b) - 1 else 31999)
            in b\<lparr>thinking := Some \<lparr>thinking_type = ''enabled'', budget_tokens = budgetTokens\<rparr>\<rparr>)
      else b)"

text \<open>
  \<^verbatim>\<open>_processRequestBody\<close> on a body that is an object (its callers read \<^verbatim>\<open>body.model\<close>
  before they call it).  The steps follow the source in order; \<open>variant\<close> is read before
  \<^verbatim>\<open>_modelVariant\<close> is deleted from the body.
\<close>

definition processRequestBody ::
  "preparer_env \<Rightarrow> request_body \<Rightarrow> (string \<rightharpoonup> string) \<Rightarrow> claude_account option \<Rightarrow> bool
     \<Rightarrow> request_body" where
  "processRequestBody env body clientHeaders account isCountTokens =
     (if isCountTokens then body
      else
        (let b1 = split_variant body;
             variant = modelVariant b1;
             b2 = (if truthy_str (modelVariant b1) then b1\<lparr>modelVariant := None\<rparr> else b1);
             b3 = strip_security_directive b2;
             b4 = strip_system_reminders b3;
             b5 = validateAndLimitMaxTokens (pricing env) b4;
             b6 = stripTtlFromCacheControl b5;
             isRealClaudeCode = validate env b6 clientHeaders;
             b7 = (if \<not> isRealClaudeCode then inject_claude_code_prompt b6 else b6);
             b8 = apply_system_prompt (systemPrompt env) b7;
             b9 = delete_top_p b8;
             b10 = (case account of
                      None \<Rightarrow> b9
                    | Some a \<Rightarrow> if useUnifiedClientId a \<and> unifiedClientId a \<noteq> []
                                then replaceClientId (randomUUID env) (unifiedClientId a) b9
                                else b9)
         in apply_thinking variant b10))"

text \<open>
  The two string formats of the unified client id: what \<^verbatim>\<open>crypto.randomUUID()\<close> returns
  (36 characters, lower-case hexadecimal digits and dashes), and a match of
  \<^verbatim>\<open>^user_<unifiedClientId>_account__session_[a-f0-9-]{36}$\<close> with the id taken literally.
\<close>

definition is_uuid :: "string \<Rightarrow> bool" where
  "is_uuid u = (length u = 36 \<and> list_all is_hex_dash u)"

definition matches_unified_pattern :: "string \<Rightarrow> string \<Rightarrow> bool" where
  "matches_unified_pattern unifiedId s =
     (length s = length unifiedId + 59
      \<and> take (length unifiedId + 23) s = ''user_'' @ unifiedId @ ''_account__session_''
      \<and> list_all is_hex_dash (drop (length unifiedId + 23) s))"

text \<open>\<^verbatim>\<open>body.metadata.user_id\<close>, absent when \<^verbatim>\<open>metadata\<close> is.\<close>

definition body_user_id :: "request_body \<Rightarrow> string option" where
  "body_user_id b = (case metadata b of None \<Rightarrow> None | Some m \<Rightarrow> user_id m)"

subsection \<open>Example inputs of the preparer\<close>

text \<open>
  A pricing table with one row, an environment whose validator rejects every request, the
  request of the specification's thinking scenario, and an account with a unified client id.
\<close>

definition example_pricing :: pricing_table where
  "example_pricing =
     [''claude-sonnet-4-20250514'' \<mapsto>
        \<lparr>cfg_max_tokens = None, cfg_max_output_tokens = Some 64000\<rparr>]"

definition example_env :: preparer_env where
  "example_env =
     \<lparr>systemPrompt = [], pricing = Some example_pricing, validate = (\<lambda>b h. False),
      randomUUID = ''123e4567-e89b-42d3-a456-426614174000''\<rparr>"

definition example_body :: request_body where
  "example_body =
     \<lparr>model = Some ''claude-sonnet-4-20250514:thinking'', modelVariant = None,
      max_tokens = Some 8000, system = SysString ''You are helpful.'', messages = [],
      metadata = None, temperature = Absent, top_p = Value 0.9, thinking = None,
      stream = None\<rparr>"

definition example_unified_id :: string where
  "example_unified_id = ''0123456789abcdef0123456789abcdef0123456789abcdef0123456789abcdef''"

definition example_account :: claude_account where
  "example_account =
     \<lparr>banMode = ''false'', useUnifiedClientId = True, unifiedClientId = example_unified_id\<rparr>"

section \<open>Account health updates of the relay\<close>

text \<open>
  The relay acts on the account's health through calls to its collaborators (the
  scheduler, the account service, the key-value store).  A run is modelled by the list of
  the calls it makes, in order; every call is taken to return normally.  \<open>resetAt\<close> of
  \<open>MarkAccountRateLimited\<close> is the text of the \<^verbatim>\<open>anthropic-ratelimit-unified-reset\<close> header
  that \<^verbatim>\<open>parseInt\<close> reads, \<open>None\<close> for \<^verbatim>\<open>null\<close>.
\<close>

record final_usage =
  input_tokens :: int
  output_tokens :: int
  cache_creation_input_tokens :: int
  cache_read_input_tokens :: int
  usage_model :: "string option"
  cache_creation :: "(int \<times> int) option"

datatype relay_call =
    RecordUnauthorizedError string
  | MarkAccountUnauthorized string string "string option"
  | MarkAccountBlocked string string "string option"
  | MarkAccountOverloaded string
  | HandleServerError string nat
  | MarkAccountRateLimited string string "string option" "string option"
  | UpdateSessionWindowStatus string string
  | ClearUnauthorizedErrors string
  | ClearInternalErrors string
  | RemoveAccountRateLimit string string
  | RemoveAccountOverload string
  | UsageCallback final_usage string

text \<open>
  What \<^verbatim>\<open>JSON.parse\<close> of a response body shows of \<^verbatim>\<open>error.message\<close>: nothing truthy, a
  string, or a truthy value without \<^verbatim>\<open>toLowerCase\<close> (calling it throws).  \<open>ParseError\<close>
  is a body that is not JSON.
\<close>

datatype error_message = NoErrorMessage | ErrorMessage string | NonStringMessage

datatype parsed_body = ParseError | Parsed error_message

text \<open>
  The answers of the collaborators and of the configuration that the health updates read:
  the 401 count after the increment, \<^verbatim>\<open>config.claude.overloadHandling.enabled\<close>, the two
  flags of the account, and \<^verbatim>\<open>JSON.parse\<close> seen through \<open>parsed_body\<close>.
\<close>

record relay_env =
  unauthorizedErrorCount :: nat
  overloadHandlingEnabled :: int
  isAccountRateLimited :: bool
  isAccountOverloaded :: bool
  parseBody :: "string \<Rightarrow> parsed_body"

record upstream_response =
  statusCode :: nat
  responseHeaders :: "string \<rightharpoonup> string"
  responseBody :: string

definition rateLimitMarker :: string where
  "rateLimitMarker = ''exceed your account's rate limit''"

text \<open>A header read with a truthiness test: an empty value counts as absent.\<close>

definition truthy_header :: "(string \<rightharpoonup> string) \<Rightarrow> string \<Rightarrow> string option" where
  "truthy_header hs k = (case hs k of None \<Rightarrow> None | Some v \<Rightarrow> if v \<noteq> [] then Some v else None)"

definition get5hStatus :: "(string \<rightharpoonup> string) \<Rightarrow> string option" where
  "get5hStatus hs =
     (case truthy_header hs ''anthropic-ratelimit-unified-5h-status'' of
        Some v \<Rightarrow> Some v
      | None \<Rightarrow>
          (case truthy_header hs ''Anthropic-Ratelimit-Unified-5h-Status'' of
             Some v \<Rightarrow> Some v
           | None \<Rightarrow> truthy_header hs ''ANTHROPIC-RATELIMIT-UNIFIED-5H-STATUS''))"

text \<open>The last branch of the classification in \<^verbatim>\<open>relayRequest\<close>: the look into the body.\<close>

definition bodyRateLimited :: "relay_env \<Rightarrow> string \<Rightarrow> bool" where
  "bodyRateLimited env body =
     (case parseBody env body of
        Parsed NoErrorMessage \<Rightarrow> False
      | Parsed (ErrorMessage m) \<Rightarrow> str_includes (toLowerCase m) rateLimitMarker
      | Parsed NonStringMessage \<Rightarrow> body \<noteq> [] \<and> str_includes (toLowerCase body) rateLimitMarker
      | ParseError \<Rightarrow> body \<noteq> [] \<and> str_includes (toLowerCase body) rateLimitMarker)"

definition unauthorizedCalls :: "relay_env \<Rightarrow> string \<Rightarrow> string \<Rightarrow> string option \<Rightarrow> relay_call list" where
  "unauthorizedCalls env accountId accountType sessionHash =
     RecordUnauthorizedError accountId
     # (if unauthorizedErrorCount env \<ge> 1
        then [MarkAccountUnauthorized accountId accountType sessionHash] else [])"

definition overloadCalls :: "relay_env \<Rightarrow> string \<Rightarrow> relay_call list" where
  "overloadCalls env accountId =
     (if overloadHandlingEnabled env > 0 then [MarkAccountOverloaded accountId] else [])"

text \<open>The calls made on a successful response, after the session window status.\<close>

definition successCalls :: "relay_env \<Rightarrow> string \<Rightarrow> string \<Rightarrow> relay_call list" where
  "successCalls env accountId accountType =
     [ClearUnauthorizedErrors accountId, ClearInternalErrors accountId]
     @ (if isAccountRateLimited env then [RemoveAccountRateLimit accountId accountType] else [])
     @ (if isAccountOverloaded env then [RemoveAccountOverload accountId] else [])"

definition sessionWindowCalls :: "string \<Rightarrow> (string \<rightharpoonup> string) \<Rightarrow> relay_call list" where
  "sessionWindowCalls accountId hs =
     (case get5hStatus hs of
        None \<Rightarrow> []
      | Some sessionWindowStatus \<Rightarrow> [UpdateSessionWindowStatus accountId sessionWindowStatus])"

text \<open>
  \<^verbatim>\<open>relayRequest\<close> from the response on: the calls of the branch the status selects.
\<close>

definition relayRequest_calls ::
  "relay_env \<Rightarrow> string \<Rightarrow> string \<Rightarrow> string option \<Rightarrow> upstream_response \<Rightarrow> relay_call list" where
  "relayRequest_calls env accountId accountType sessionHash response =
     (if statusCode response \<noteq> 200 \<and> statusCode response \<noteq> 201 then
        (if statusCode response = 401 then
           unauthorizedCalls env accountId accountType sessionHash
         else if statusCode response = 403 then
           [MarkAccountBlocked accountId accountType sessionHash]
         else if statusCode response = 529 then
           overloadCalls env accountId
         else if statusCode response \<ge> 500 \<and> statusCode response < 600 then
           [HandleServerError accountId (statusCode response)]
         else if statusCode response = 429 then
           [MarkAccountRateLimited accountId accountType sessionHash
              (truthy_header (responseHeaders response) ''anthropic-ratelimit-unified-reset'')]
         else if bodyRateLimited env (responseBody response) then
           [MarkAccountRateLimited accountId accountType sessionHash None]
         else [])
      else
        sessionWindowCalls accountId (responseHeaders response)
        @ successCalls env accountId accountType)"

text \<open>The calls that mark an account rate limited, and those that clear its health state.\<close>

fun is_rate_limit_call :: "relay_call \<Rightarrow> bool" where
  "is_rate_limit_call (MarkAccountRateLimited a t h r) = True"
| "is_rate_limit_call _ = False"

section \<open>SSE tap and usage aggregation (\<^verbatim>\<open>_makeClaudeStreamRequestWithUsageCapture\<close>)\<close>

text \<open>
  What the tap reads of a parsed \<^verbatim>\<open>data:\<close> line.  \<open>message_usage\<close> is \<^verbatim>\<open>data.message.usage\<close>
  when \<^verbatim>\<open>data.message\<close> and it are truthy; \<open>delta_output_tokens\<close> is
  \<^verbatim>\<open>data.usage.output_tokens\<close> when \<^verbatim>\<open>data.usage\<close> is truthy and the field is not
  \<^verbatim>\<open>undefined\<close>.  Token counts are integers; an absent count is \<open>None\<close>.
\<close>

record cache_creation_view =
  ephemeral_5m_input_tokens :: "int option"
  ephemeral_1h_input_tokens :: "int option"

record usage_view =
  v_input_tokens :: "int option"
  v_cache_creation_input_tokens :: "int option"
  v_cache_read_input_tokens :: "int option"
  v_cache_creation :: "cache_creation_view option"

record sse_data =
  data_type :: "string option"
  message_usage :: "usage_view option"
  message_model :: "string option"
  delta_output_tokens :: "int option"
  data_error_message :: error_message

text \<open>\<^verbatim>\<open>currentUsageData\<close>: every property is \<^verbatim>\<open>undefined\<close> in the empty object.\<close>

record usage_data =
  u_input_tokens :: "int option"
  u_output_tokens :: "int option"
  u_cache_creation_input_tokens :: "int option"
  u_cache_read_input_tokens :: "int option"
  u_model :: "string option"
  u_cache_creation :: "(int \<times> int) option"

definition empty_usage :: usage_data where
  "empty_usage =
     \<lparr>u_input_tokens = None, u_output_tokens = None, u_cache_creation_input_tokens = None,
      u_cache_read_input_tokens = None, u_model = None, u_cache_creation = None\<rparr>"

text \<open>\<^verbatim>\<open>x || 0\<close> on an optional count.\<close>

definition or0 :: "int option \<Rightarrow> int" where
  "or0 x = (case x of None \<Rightarrow> 0 | Some n \<Rightarrow> n)"

text \<open>
  The state the two stream handlers share, and \<open>written\<close>, what has been written to the
  client's stream.  That stream is taken not to be destroyed while the upstream stream
  lasts, and a write to it and the transformer are taken not to throw.
\<close>

record tap_state =
  buffer :: string
  allUsageData :: "usage_data list"
  currentUsageData :: usage_data
  rateLimitDetected :: bool
  written :: "string list"

definition initial_tap :: tap_state where
  "initial_tap =
     \<lparr>buffer = [], allUsageData = [], currentUsageData = empty_usage,
      rateLimitDetected = False, written = []\<rparr>"

definition on_message_start :: "sse_data \<Rightarrow> usage_view \<Rightarrow> tap_state \<Rightarrow> tap_state" where
  "on_message_start d u st =
     (let st1 = (if u_input_tokens (currentUsageData st) \<noteq> None
                    \<and> u_output_tokens (currentUsageData st) \<noteq> None
                 then st\<lparr>allUsageData := allUsageData st @ [currentUsageData st],
                        currentUsageData := empty_usage\<rparr>
                 else st);
          c = (currentUsageData st1)
                \<lparr>u_input_tokens := Some (or0 (v_input_tokens u)),
                 u_cache_creation_input_tokens := Some (or0 (v_cache_creation_input_tokens u)),
                 u_cache_read_input_tokens := Some (or0 (v_cache_read_input_tokens u)),
                 u_model := message_model d\<rparr>;
          c' = (case v_cache_creation u of
                  None \<Rightarrow> c
                | Some cc \<Rightarrow> c\<lparr>u_cache_creation :=
                               Some (or0 (ephemeral_5m_input_tokens cc),
                                     or0 (ephemeral_1h_input_tokens cc))\<rparr>)
      in st1\<lparr>currentUsageData := c'\<rparr>)"

definition on_message_delta :: "int \<Rightarrow> tap_state \<Rightarrow> tap_state" where
  "on_message_delta n st =
     (let c = (currentUsageData st)\<lparr>u_output_tokens := Some n\<rparr>
      in if u_input_tokens c \<noteq> None
         then st\<lparr>allUsageData := allUsageData st @ [c], currentUsageData := empty_usage\<rparr>
         else st\<lparr>currentUsageData := c\<rparr>)"

definition on_error_event :: "sse_data \<Rightarrow> tap_state \<Rightarrow> tap_state" where
  "on_error_event d st =
     (case data_error_message d of
        ErrorMessage m \<Rightarrow>
          if str_includes (toLowerCase m) rateLimitMarker then st\<lparr>rateLimitDetected := True\<rparr>
          else st
      | _ \<Rightarrow> st)"

text \<open>The three tests made on one parsed event.\<close>

definition on_sse_data :: "sse_data \<Rightarrow> tap_state \<Rightarrow> tap_state" where
  "on_sse_data d st =
     (let st1 = (case message_usage d of
                   Some u \<Rightarrow> if data_type d = Some ''message_start''
                             then on_message_start d u st else st
                 | None \<Rightarrow> st);
          st2 = (case delta_output_tokens d of
                   Some n \<Rightarrow> if data_type d = Some ''message_delta''
                             then on_message_delta n st1 else st1
                 | None \<Rightarrow> st1)
      in if data_type d = Some ''error'' then on_error_event d st2 else st2)"

text \<open>
  One complete line.  \<open>parse\<close> is \<^verbatim>\<open>JSON.parse\<close> seen through \<open>sse_data\<close>; \<open>None\<close> is a
  line whose text is not JSON (or is \<^verbatim>\<open>null\<close>), which the handler skips.
\<close>

definition on_line :: "(string \<Rightarrow> sse_data option) \<Rightarrow> tap_state \<Rightarrow> string \<Rightarrow> tap_state" where
  "on_line parse st line =
     (if prefix ''data: '' line \<and> length line > 6
      then (case parse (drop 6 line) of
              None \<Rightarrow> st
            | Some d \<Rightarrow> on_sse_data d st)
      else st)"

text \<open>
  A write to the client's stream, through the transformer when there is one; a falsy
  (empty) transformed text is not written.
\<close>

definition forward :: "(string \<Rightarrow> string) option \<Rightarrow> string \<Rightarrow> tap_state \<Rightarrow> tap_state" where
  "forward streamTransformer s st =
     (case streamTransformer of
        None \<Rightarrow> st\<lparr>written := written st @ [s]\<rparr>
      | Some f \<Rightarrow> if f s \<noteq> [] then st\<lparr>written := written st @ [f s]\<rparr> else st)"

text \<open>The \<^verbatim>\<open>data\<close> handler of a stream.\<close>

definition on_data ::
  "(string \<Rightarrow> sse_data option) \<Rightarrow> (string \<Rightarrow> string) option \<Rightarrow> tap_state \<Rightarrow> string \<Rightarrow> tap_state" where
  "on_data parse streamTransformer st chunkStr =
     (let parts = split_on (CHR 0x0A) (buffer st @ chunkStr);
          lines = butlast parts;
          st1 = st\<lparr>buffer := last parts\<rparr>;
          st2 = (if lines \<noteq> []
                 then forward streamTransformer (join_with [CHR 0x0A] lines @ [CHR 0x0A]) st1
                 else st1)
      in foldl (on_line parse) st2 lines)"

text \<open>The records the \<^verbatim>\<open>end\<close> handler merges: the unfinished one is pushed with an output of 0.\<close>

definition final_records :: "tap_state \<Rightarrow> usage_data list" where
  "final_records st =
     (if u_input_tokens (currentUsageData st) \<noteq> None
      then allUsageData st
           @ [if u_output_tokens (currentUsageData st) = None
              then (currentUsageData st)\<lparr>u_output_tokens := Some 0\<rparr>
              else currentUsageData st]
      else allUsageData st)"

record usage_totals =
  t_input_tokens :: int
  t_output_tokens :: int
  t_cache_creation_input_tokens :: int
  t_cache_read_input_tokens :: int

text \<open>The \<^verbatim>\<open>reduce\<close> that sums the token fields, from the empty object.\<close>

definition totalUsage :: "usage_data list \<Rightarrow> usage_totals" where
  "totalUsage recs =
     foldl (\<lambda>acc usage.
              \<lparr>t_input_tokens = t_input_tokens acc + or0 (u_input_tokens usage),
               t_output_tokens = t_output_tokens acc + or0 (u_output_tokens usage),
               t_cache_creation_input_tokens =
                 t_cache_creation_input_tokens acc + or0 (u_cache_creation_input_tokens usage),
               t_cache_read_input_tokens =
                 t_cache_read_input_tokens acc + or0 (u_cache_read_input_tokens usage)\<rparr>)
           \<lparr>t_input_tokens = 0, t_output_tokens = 0, t_cache_creation_input_tokens = 0,
            t_cache_read_input_tokens = 0\<rparr>
           recs"

text \<open>The \<^verbatim>\<open>forEach\<close> that sums the detailed cache creation counts.\<close>

definition totalEphemeral :: "usage_data list \<Rightarrow> int \<times> int" where
  "totalEphemeral recs =
     foldl (\<lambda>(t5m, t1h) usage.
              case u_cache_creation usage of
                None \<Rightarrow> (t5m, t1h)
              | Some (e5m, e1h) \<Rightarrow> (t5m + e5m, t1h + e1h))
           (0, 0) recs"

text \<open>
  \<^verbatim>\<open>finalUsage\<close> for a non-empty list of records; \<open>body_model\<close> is the model of the request.
  A model counts when it is truthy.
\<close>

definition finalUsage :: "string option \<Rightarrow> usage_data list \<Rightarrow> final_usage" where
  "finalUsage body_model recs =
     (let total = totalUsage recs;
          (totalEphemeral5m, totalEphemeral1h) = totalEphemeral recs
      in \<lparr>input_tokens = t_input_tokens total,
          output_tokens = t_output_tokens total,
          cache_creation_input_tokens = t_cache_creation_input_tokens total,
          cache_read_input_tokens = t_cache_read_input_tokens total,
          usage_model = (if truthy_str (u_model (last recs)) then u_model (last recs)
                         else body_model),
          cache_creation = (if totalEphemeral5m > 0 \<or> totalEphemeral1h > 0
                            then Some (totalEphemeral5m, totalEphemeral1h) else None)\<rparr>)"

text \<open>
  The \<^verbatim>\<open>end\<close> handler: the rest of the buffer is written, the usage callback of
  \<^verbatim>\<open>relayStreamRequestWithUsageCapture\<close> (which adds the account id) is called when there is a
  record, and the health state is updated from the status and the headers of the stream.
\<close>

definition flush_buffer :: "(string \<Rightarrow> string) option \<Rightarrow> tap_state \<Rightarrow> tap_state" where
  "flush_buffer streamTransformer st =
     (if trim (buffer st) \<noteq> [] then forward streamTransformer (buffer st) st else st)"

definition usageCalls :: "string \<Rightarrow> string option \<Rightarrow> tap_state \<Rightarrow> relay_call list" where
  "usageCalls accountId body_model st =
     (if final_records st = [] then []
      else [UsageCallback (finalUsage body_model (final_records st)) accountId])"

definition on_end ::
  "relay_env \<Rightarrow> string \<Rightarrow> string \<Rightarrow> string option \<Rightarrow> string option \<Rightarrow>
   nat option \<Rightarrow> (string \<rightharpoonup> string) \<Rightarrow> tap_state \<Rightarrow> relay_call list" where
  "on_end env accountId accountType sessionHash body_model status hs st =
     usageCalls accountId body_model st
     @ sessionWindowCalls accountId hs
     @ (if rateLimitDetected st \<or> status = Some 429
        then [MarkAccountRateLimited accountId accountType sessionHash
                (truthy_header hs ''anthropic-ratelimit-unified-reset'')]
        else if status = Some 200 then successCalls env accountId accountType
        else [])"

text \<open>\<^verbatim>\<open>handleErrorResponse\<close>, started by \<^verbatim>\<open>onResponse\<close> for a status other than 200.\<close>

definition handleErrorResponse ::
  "relay_env \<Rightarrow> string \<Rightarrow> string \<Rightarrow> string option \<Rightarrow> nat \<Rightarrow> relay_call list" where
  "handleErrorResponse env accountId accountType sessionHash status =
     (if status = 401 then unauthorizedCalls env accountId accountType sessionHash
      else if status = 403 then [MarkAccountBlocked accountId accountType sessionHash]
      else if status = 529 then overloadCalls env accountId
      else if status \<ge> 500 \<and> status < 600 then [HandleServerError accountId status]
      else [])"

text \<open>
  An upstream stream as the handlers see it: the status and headers of its response
  (\<open>None\<close> and empty while no response has arrived), its chunks, each as the string
  \<^verbatim>\<open>chunk.toString()\<close> makes of it, and the event that finishes it.
\<close>

datatype stream_outcome = End | Error string | Timeout

record upstream_stream =
  stream_statusCode :: "nat option"
  stream_headers :: "string \<rightharpoonup> string"
  chunks :: "string list"
  outcome :: stream_outcome

definition tap_after_chunks ::
  "(string \<Rightarrow> sse_data option) \<Rightarrow> (string \<Rightarrow> string) option \<Rightarrow> string list \<Rightarrow> tap_state" where
  "tap_after_chunks parse streamTransformer cs = foldl (on_data parse streamTransformer) initial_tap cs"

text \<open>
  The calls made once the stream is over.  At its normal end the \<^verbatim>\<open>end\<close> handler runs.
  On a timeout both \<^verbatim>\<open>timeout\<close> handlers (the one of \<^verbatim>\<open>streamSSE\<close> and the one of the relay)
  only call \<^verbatim>\<open>stream.close()\<close>, write an error event and reject; closing ends the readable
  side of the stream, so the \<^verbatim>\<open>end\<close> handler, which nothing removes or guards, then runs on
  what had arrived, with the status and headers the stream has at that time.  A stream that
  fails with an \<^verbatim>\<open>error\<close> event delivers no \<^verbatim>\<open>end\<close>: the error handler writes an error
  event and rejects, and makes no call.
\<close>

definition end_calls ::
  "relay_env \<Rightarrow> (string \<Rightarrow> sse_data option) \<Rightarrow> (string \<Rightarrow> string) option \<Rightarrow>
   string \<Rightarrow> string \<Rightarrow> string option \<Rightarrow> string option \<Rightarrow> upstream_stream \<Rightarrow> relay_call list" where
  "end_calls env parse streamTransformer accountId accountType sessionHash body_model s =
     (case outcome s of
        End \<Rightarrow> on_end env accountId accountType sessionHash body_model
                 (stream_statusCode s) (stream_headers s)
                 (tap_after_chunks parse streamTransformer (chunks s))
      | Error code \<Rightarrow> []
      | Timeout \<Rightarrow> on_end env accountId accountType sessionHash body_model
                     (stream_statusCode s) (stream_headers s)
                     (tap_after_chunks parse streamTransformer (chunks s)))"

text \<open>
  All calls of a streaming request: those \<^verbatim>\<open>onResponse\<close> starts for a status other than
  200, and those of the \<^verbatim>\<open>end\<close> handler, which is registered whatever the status is.
\<close>

definition makeClaudeStreamRequest_calls ::
  "relay_env \<Rightarrow> (string \<Rightarrow> sse_data option) \<Rightarrow> (string \<Rightarrow> string) option \<Rightarrow>
   string \<Rightarrow> string \<Rightarrow> string option \<Rightarrow> string option \<Rightarrow> upstream_stream \<Rightarrow> relay_call list" where
  "makeClaudeStreamRequest_calls env parse streamTransformer accountId accountType sessionHash
       body_model s =
     (case stream_statusCode s of
        None \<Rightarrow> []
      | Some status \<Rightarrow>
          if status \<noteq> 200
          then handleErrorResponse env accountId accountType sessionHash status else [])
     @ end_calls env parse streamTransformer accountId accountType sessionHash body_model s"

text \<open>
  The complete lines of a byte sequence, and the lines on which the tap starts a usage
  record: a \<^verbatim>\<open>data:\<close> line that parses to a \<^verbatim>\<open>message_start\<close> event with usage.
\<close>

definition complete_lines :: "string \<Rightarrow> string list" where
  "complete_lines bytes = butlast (split_on (CHR 0x0A) bytes)"

definition is_usage_start :: "(string \<Rightarrow> sse_data option) \<Rightarrow> string \<Rightarrow> bool" where
  "is_usage_start parse line =
     (prefix ''data: '' line \<and> length line > 6
      \<and> (case parse (drop 6 line) of
            None \<Rightarrow> False
          | Some d \<Rightarrow> data_type d = Some ''message_start'' \<and> message_usage d \<noteq> None))"

fun is_usage_call :: "relay_call \<Rightarrow> bool" where
  "is_usage_call (UsageCallback u a) = True"
| "is_usage_call _ = False"

subsection \<open>Example inputs of the health updates\<close>

text \<open>
  An environment in which the account is flagged rate limited and overloaded and no body
  is JSON, and a response whose plain-text body holds the rate-limit marker.
\<close>

definition example_relay_env :: relay_env where
  "example_relay_env =
     \<lparr>unauthorizedErrorCount = 1, overloadHandlingEnabled = 10, isAccountRateLimited = True,
      isAccountOverloaded = True, parseBody = (\<lambda>s. ParseError)\<rparr>"

definition example_response :: "nat \<Rightarrow> upstream_response" where
  "example_response status =
     \<lparr>statusCode = status,
      responseHeaders = [''anthropic-ratelimit-unified-reset'' \<mapsto> ''1700000000''],
      responseBody = ''This request would exceed your account's rate limit.''\<rparr>"

text \<open>
  The part of the tap's state that the usage callback and the health updates depend on,
  and the states in which a usage record has been started.
\<close>

definition usage_part :: "tap_state \<Rightarrow> usage_data list \<times> usage_data \<times> bool" where
  "usage_part st = (allUsageData st, currentUsageData st, rateLimitDetected st)"

definition started :: "tap_state \<Rightarrow> bool" where
  "started st = (allUsageData st \<noteq> [] \<or> u_input_tokens (currentUsageData st) \<noteq> None)"


definition example_stream :: "nat \<Rightarrow> string list \<Rightarrow> upstream_stream" where
  "example_stream status cs =
     \<lparr>stream_statusCode = Some status, stream_headers = Map.empty, chunks = cs, outcome = End\<rparr>"

subsection \<open>Example stream\<close>

text \<open>
  The three events of the specification's usage scenario, what \<^verbatim>\<open>JSON.parse\<close> shows of
  them, and a stream that delivers them in two chunks cut in the middle of the second line.
\<close>

definition example_start_json :: string where
  \<open>example_start_json = ''{"type":"message_start","message":{"model":"claude-sonnet-4-20250514","usage":{"input_tokens":10,"cache_creation_input_tokens":5,"cache_read_input_tokens":2}}}''\<close>

definition example_block_json :: string where
  \<open>example_block_json = ''{"type":"content_block_delta","index":0,"delta":{"type":"text_delta","text":"Hi"}}''\<close>

definition example_delta_json :: string where
  \<open>example_delta_json = ''{"type":"message_delta","usage":{"output_tokens":42}}''\<close>

definition no_sse_data :: sse_data where
  "no_sse_data =
     \<lparr>data_type = None, message_usage = None, message_model = None,
      delta_output_tokens = None, data_error_message = NoErrorMessage\<rparr>"

definition example_parse :: "string \<Rightarrow> sse_data option" where
  "example_parse =
     map_of
       [(example_start_json,
           no_sse_data\<lparr>data_type := Some ''message_start'',
                        message_usage := Some \<lparr>v_input_tokens = Some 10,
                                               v_cache_creation_input_tokens = Some 5,
                                               v_cache_read_input_tokens = Some 2,
                                               v_cache_creation = None\<rparr>,
                        message_model := Some ''claude-sonnet-4-20250514''\<rparr>),
        (example_block_json, no_sse_data\<lparr>data_type := Some ''content_block_delta''\<rparr>),
        (example_delta_json,
           no_sse_data\<lparr>data_type := Some ''message_delta'', delta_output_tokens := Some 42\<rparr>)]"

definition example_usage_chunks :: "string list" where
  "example_usage_chunks =
     [''data: '' @ example_start_json @ [CHR 0x0A] @ ''data: '' @ take 30 example_block_json,
      drop 30 example_block_json @ [CHR 0x0A] @ ''data: '' @ example_delta_json @ [CHR 0x0A]]"

definition example_ping_chunks :: "string list" where
  "example_ping_chunks =
     [''event: ping'' @ [CHR 0x0A] @ ''data: '' @ example_block_json @ [CHR 0x0A]]"

section \<open>Proxy agent factory (proxyHelper.js)\<close>

text \<open>
  A port is a number or a string in the configuration; template literals render it, and
  \<^verbatim>\<open>0\<close> and the empty string are falsy.
\<close>

datatype js_port = PortNumber nat | PortString string

fun show_nat :: "nat \<Rightarrow> string" where
  "show_nat n =
     (if n < 10 then [''0123456789'' ! n]
      else show_nat (n div 10) @ [''0123456789'' ! (n mod 10)])"

declare show_nat.simps [simp del]

fun render_port :: "js_port \<Rightarrow> string" where
  "render_port (PortNumber n) = show_nat n"
| "render_port (PortString s) = s"

fun truthy_port :: "js_port \<Rightarrow> bool" where
  "truthy_port (PortNumber n) = (n \<noteq> 0)"
| "truthy_port (PortString s) = (s \<noteq> [])"

text \<open>A proxy descriptor; an absent \<open>type\<close> or \<open>host\<close> is the empty string.\<close>

record proxy_descriptor =
  proxy_type :: string
  proxy_host :: string
  proxy_port :: js_port
  username :: "string option"
  password :: "string option"

text \<open>
  An agent object.  \<open>agent_id\<close> is its identity: every \<^verbatim>\<open>new\<close> takes the next number.  The
  keep-alive options are the same constants for every agent and are left out.
\<close>

datatype agent_class = SocksProxyAgent | HttpsProxyAgent

record proxy_agent =
  agent_id :: nat
  agent_class :: agent_class
  agent_url :: string
  agent_family :: "nat option"

record proxy_helper =
  agentCache :: "string \<rightharpoonup> proxy_agent"
  cache_hits :: nat
  cache_misses :: nat
  next_agent_id :: nat

text \<open>
  \<^verbatim>\<open>options.useIPv4\<close> and \<^verbatim>\<open>_getIPFamilyPreference\<close>; the result \<open>None\<close> is \<^verbatim>\<open>null\<close> (automatic).
  \<open>config_useIPv4\<close> is \<^verbatim>\<open>config.proxy?.useIPv4\<close>, \<open>None\<close> when it is undefined.
\<close>

datatype ip_preference =
  PrefUndefined | PrefBoolean bool | PrefNumber int | PrefString string | PrefOther

definition getIPFamilyPreference :: "bool option option \<Rightarrow> ip_preference \<Rightarrow> bool option" where
  "getIPFamilyPreference config_useIPv4 preference =
     (case preference of
        PrefUndefined \<Rightarrow> (case config_useIPv4 of Some d \<Rightarrow> d | None \<Rightarrow> Some True)
      | PrefBoolean b \<Rightarrow> Some b
      | PrefNumber n \<Rightarrow> if n = 4 then Some True else if n = 6 then Some False else None
      | PrefString s \<Rightarrow>
          (let lower = toLowerCase s
           in if lower = ''ipv4'' \<or> lower = ''4'' then Some True
              else if lower = ''ipv6'' \<or> lower = ''6'' then Some False
              else if lower = ''auto'' \<or> lower = ''both'' then None
              else Some True)
      | PrefOther \<Rightarrow> Some True)"

definition cacheKey :: "proxy_descriptor \<Rightarrow> string" where
  "cacheKey proxy =
     proxy_type proxy @ ''://'' @ proxy_host proxy @ '':'' @ render_port (proxy_port proxy)
     @ '':'' @ (if truthy_str (username proxy) then the (username proxy) else [])"

definition proxy_auth :: "proxy_descriptor \<Rightarrow> string" where
  "proxy_auth proxy =
     (if truthy_str (username proxy) \<and> truthy_str (password proxy)
      then the (username proxy) @ '':'' @ the (password proxy) @ ''@'' else [])"

text \<open>
  What \<^verbatim>\<open>createProxyAgent\<close> reads besides its arguments: the configured default of the IP
  family, and whether the constructor of an agent accepts a URL (it throws otherwise, and
  \<^verbatim>\<open>createProxyAgent\<close> returns \<^verbatim>\<open>null\<close>).
\<close>

record proxy_env =
  config_useIPv4 :: "bool option option"
  constructs :: "string \<Rightarrow> bool"

definition new_agent ::
  "proxy_env \<Rightarrow> agent_class \<Rightarrow> string \<Rightarrow> bool option \<Rightarrow> string \<Rightarrow> proxy_helper
     \<Rightarrow> proxy_agent option \<times> proxy_helper" where
  "new_agent env cls url useIPv4 key st =
     (if constructs env url
      then (let agent = \<lparr>agent_id = next_agent_id st, agent_class = cls, agent_url = url,
                         agent_family = (case useIPv4 of
                                           None \<Rightarrow> None
                                         | Some v \<Rightarrow> Some (if v then 4 else 6))\<rparr>
            in (Some agent,
                st\<lparr>agentCache := (agentCache st)(key \<mapsto> agent),
                   cache_misses := cache_misses st + 1,
                   next_agent_id := next_agent_id st + 1\<rparr>))
      else (None, st))"

text \<open>
  \<^verbatim>\<open>createProxyAgent\<close> on a descriptor object (\<open>None\<close> is a missing configuration); the
  result \<open>None\<close> is \<^verbatim>\<open>null\<close>.
\<close>

definition createProxyAgent ::
  "proxy_env \<Rightarrow> proxy_descriptor option \<Rightarrow> ip_preference \<Rightarrow> proxy_helper
     \<Rightarrow> proxy_agent option \<times> proxy_helper" where
  "createProxyAgent env proxyConfig pref st =
     (case proxyConfig of
        None \<Rightarrow> (None, st)
      | Some proxy \<Rightarrow>
          if proxy_type proxy = [] \<or> proxy_host proxy = [] \<or> \<not> truthy_port (proxy_port proxy)
          then (None, st)
          else
            (case agentCache st (cacheKey proxy) of
               Some cachedAgent \<Rightarrow> (Some cachedAgent, st\<lparr>cache_hits := cache_hits st + 1\<rparr>)
             | None \<Rightarrow>
                 (let useIPv4 = getIPFamilyPreference (config_useIPv4 env) pref;
                      auth = proxy_auth proxy
                  in if proxy_type proxy = ''socks5''
                     then new_agent env SocksProxyAgent
                            (''socks5h://'' @ auth @ proxy_host proxy @ '':''
                               @ render_port (proxy_port proxy))
                            useIPv4 (cacheKey proxy) st
                     else if proxy_type proxy = ''http'' \<or> proxy_type proxy = ''https''
                     then new_agent env HttpsProxyAgent
                            (proxy_type proxy @ ''://'' @ auth @ proxy_host proxy @ '':''
                               @ render_port (proxy_port proxy))
                            useIPv4 (cacheKey proxy) st
                     else (None, st))))"

definition example_proxy :: proxy_descriptor where
  "example_proxy =
     \<lparr>proxy_type = ''http'', proxy_host = ''p'', proxy_port = PortNumber 8080,
      username = Some ''u'', password = Some ''p''\<rparr>"

definition example_proxy_env :: proxy_env where
  "example_proxy_env = \<lparr>config_useIPv4 = None, constructs = (\<lambda>url. True)\<rparr>"

definition empty_proxy_helper :: proxy_helper where
  "empty_proxy_helper =
     \<lparr>agentCache = Map.empty, cache_hits = 0, cache_misses = 0, next_agent_id = 0\<rparr>"

section \<open>HTTP/2 client (http2Client.js)\<close>

subsection \<open>Session pool\<close>

text \<open>
  Sessions are objects: \<open>session_store\<close> maps the identity of a session to its state, and
  the next \<^verbatim>\<open>http2.connect\<close> that connects yields the session \<open>next_session\<close>.  The state of a
  session holds its two flags (\<open>closed_flag\<close> is the property \<^verbatim>\<open>closed\<close>) and
  \<open>listener_key\<close>, the pool key that the \<^verbatim>\<open>error\<close>,
  \<^verbatim>\<open>goaway\<close> and \<^verbatim>\<open>close\<close> listeners of \<^verbatim>\<open>getSession\<close> delete.  \<open>getSession\<close> is one step of the
  model: nothing happens between its lookup and its store.
\<close>

record h2_session =
  closed_flag :: bool
  destroyed :: bool
  listener_key :: "string option"

record session_info =
  session :: nat
  lastUsed :: nat

record http2_client =
  sessions :: "(string \<times> session_info) list"
  session_store :: "nat \<Rightarrow> h2_session"
  next_session :: nat

text \<open>
  The pool is a JavaScript \<^verbatim>\<open>Map\<close>, kept as the list of its entries: \<^verbatim>\<open>get\<close> is
  \<open>map_of\<close>, \<^verbatim>\<open>set\<close> is \<open>AList.update\<close> and \<^verbatim>\<open>delete\<close> is \<open>AList.delete\<close>.
\<close>

definition sessionKey :: "string \<Rightarrow> js_port option \<Rightarrow> string" where
  "sessionKey hostname port =
     hostname @ '':''
     @ (case port of
          None \<Rightarrow> ''443''
        | Some p \<Rightarrow> if truthy_port p then render_port p else ''443'')"

text \<open>How \<^verbatim>\<open>createSession\<close> ends: with a connected session, or with a rejection.\<close>

datatype create_outcome = Connected | CreateFailed string

text \<open>
  \<^verbatim>\<open>getSession\<close> at time \<open>now\<close>.  A session that has just emitted \<^verbatim>\<open>connect\<close> is neither
  closed nor destroyed.  The result is the session, or the error \<^verbatim>\<open>createSession\<close> rejected
  with.
\<close>

definition getSession ::
  "string \<Rightarrow> js_port option \<Rightarrow> create_outcome \<Rightarrow> nat \<Rightarrow> http2_client
     \<Rightarrow> (string + nat) \<times> http2_client" where
  "getSession hostname port created now st =
     (let key = sessionKey hostname port;
          reusable = (case map_of (sessions st) key of
                        None \<Rightarrow> False
                      | Some sessionInfo \<Rightarrow>
                          \<not> closed_flag (session_store st (session sessionInfo))
                          \<and> \<not> destroyed (session_store st (session sessionInfo)))
      in if reusable
         then (Inr (session (the (map_of (sessions st) key))),
               st\<lparr>sessions := AList.update key
                                  ((the (map_of (sessions st) key))\<lparr>lastUsed := now\<rparr>)
                                  (sessions st)\<rparr>)
         else
           (let st1 = st\<lparr>sessions := AList.delete key (sessions st)\<rparr>
            in case created of
                 CreateFailed err \<Rightarrow> (Inl err, st1)
               | Connected \<Rightarrow>
                   (let sid = next_session st1
                    in (Inr sid,
                        st1\<lparr>session_store := (session_store st1)
                               (sid := \<lparr>closed_flag = False, destroyed = False,
                                        listener_key = Some key\<rparr>),
                            next_session := sid + 1,
                            sessions := AList.update key \<lparr>session = sid, lastUsed = now\<rparr>
                                          (sessions st1)\<rparr>))))"

text \<open>
  The listeners \<^verbatim>\<open>getSession\<close> registers: an \<^verbatim>\<open>error\<close>, \<^verbatim>\<open>goaway\<close> or \<^verbatim>\<open>close\<close> event of a
  session deletes the key the session was stored under.
\<close>

datatype session_event = ErrorEvent | GoawayEvent | CloseEvent

definition on_session_event :: "nat \<Rightarrow> session_event \<Rightarrow> http2_client \<Rightarrow> http2_client" where
  "on_session_event sid ev st =
     (case listener_key (session_store st sid) of
        None \<Rightarrow> st
      | Some key \<Rightarrow> st\<lparr>sessions := AList.delete key (sessions st)\<rparr>)"

text \<open>
  What else changes the client: the runtime sets the flags of a session, and the cleanup
  timer closes and removes the entries idle for longer than \<open>sessionTimeout\<close>.
\<close>

definition sessionTimeout :: nat where
  "sessionTimeout = 5 * 60 * 1000"

definition set_session_flags :: "nat \<Rightarrow> bool \<Rightarrow> bool \<Rightarrow> http2_client \<Rightarrow> http2_client" where
  "set_session_flags sid c d st =
     st\<lparr>session_store := (session_store st)
           (sid := (session_store st sid)\<lparr>closed_flag := c, destroyed := d\<rparr>)\<rparr>"

definition idle :: "nat \<Rightarrow> session_info \<Rightarrow> bool" where
  "idle now sessionInfo = (int now - int (lastUsed sessionInfo) > int sessionTimeout)"

text \<open>\<^verbatim>\<open>session.close()\<close> on each of the given sessions.\<close>

fun close_sessions :: "nat list \<Rightarrow> (nat \<Rightarrow> h2_session) \<Rightarrow> (nat \<Rightarrow> h2_session)" where
  "close_sessions [] store = store"
| "close_sessions (sid # sids) store =
     close_sessions sids (store(sid := (store sid)\<lparr>closed_flag := True\<rparr>))"

definition cleanup :: "nat \<Rightarrow> http2_client \<Rightarrow> http2_client" where
  "cleanup now st =
     st\<lparr>sessions := filter (\<lambda>(hostname, sessionInfo). \<not> idle now sessionInfo) (sessions st),
        session_store :=
          close_sessions
            (map (\<lambda>(hostname, sessionInfo). session sessionInfo)
               (filter (\<lambda>(hostname, sessionInfo). idle now sessionInfo) (sessions st)))
            (session_store st)\<rparr>"

text \<open>The steps of a client, and the clients reached from the empty pool.\<close>

datatype client_step =
    GetSession string "js_port option" create_outcome nat
  | SessionEvent nat session_event
  | SetFlags nat bool bool
  | Cleanup nat

fun run_step :: "http2_client \<Rightarrow> client_step \<Rightarrow> http2_client" where
  "run_step st (GetSession hostname port created now) =
     snd (getSession hostname port created now st)"
| "run_step st (SessionEvent sid ev) = on_session_event sid ev st"
| "run_step st (SetFlags sid c d) = set_session_flags sid c d st"
| "run_step st (Cleanup now) = cleanup now st"

definition new_client :: http2_client where
  "new_client =
     \<lparr>sessions = [],
      session_store = (\<lambda>sid. \<lparr>closed_flag = False, destroyed = False, listener_key = None\<rparr>),
      next_session = 0\<rparr>"

definition client_after :: "client_step list \<Rightarrow> http2_client" where
  "client_after steps = foldl run_step new_client steps"

text \<open>
  The pool invariant: no key has two entries, and an entry under a key refers to a session
  that was created for that key, than which no session created for the key is younger.
\<close>

definition entry_ok :: "http2_client \<Rightarrow> string \<Rightarrow> session_info \<Rightarrow> bool" where
  "entry_ok st key sessionInfo =
     (session sessionInfo < next_session st
      \<and> listener_key (session_store st (session sessionInfo)) = Some key
      \<and> (\<forall>sid < next_session st.
            listener_key (session_store st sid) = Some key \<longrightarrow> sid \<le> session sessionInfo))"

definition pool_invariant :: "http2_client \<Rightarrow> bool" where
  "pool_invariant st =
     (distinct (map fst (sessions st))
      \<and> (\<forall>(key, sessionInfo) \<in> set (sessions st). entry_ok st key sessionInfo))"

subsection \<open>Session creation (\<^verbatim>\<open>createSession\<close>)\<close>

text \<open>\<^verbatim>\<open>Buffer.from(s).toString('base64')\<close> on the bytes of \<open>s\<close>.\<close>

definition base64_alphabet :: string where
  "base64_alphabet = ''ABCDEFGHIJKLMNOPQRSTUVWXYZabcdefghijklmnopqrstuvwxyz0123456789+/''"

fun base64_bytes :: "nat list \<Rightarrow> string" where
  "base64_bytes [] = []"
| "base64_bytes [a] =
     [base64_alphabet ! (a div 4), base64_alphabet ! ((a mod 4) * 16), CHR ''='', CHR ''='']"
| "base64_bytes [a, b] =
     [base64_alphabet ! (a div 4), base64_alphabet ! ((a mod 4) * 16 + b div 16),
      base64_alphabet ! ((b mod 16) * 4), CHR ''='']"
| "base64_bytes (a # b # c # rest) =
     [base64_alphabet ! (a div 4), base64_alphabet ! ((a mod 4) * 16 + b div 16),
      base64_alphabet ! ((b mod 16) * 4 + c div 64), base64_alphabet ! (c mod 64)]
     @ base64_bytes rest"

definition base64 :: "string \<Rightarrow> string" where
  "base64 s = base64_bytes (map of_char s)"

text \<open>
  What the URL parser returns for the proxy of an agent, and the \<^verbatim>\<open>proxy\<close> property of an
  agent: absent, a URL, or a value \<^verbatim>\<open>new URL\<close> throws on.
\<close>

record proxy_url =
  url_hostname :: string
  url_port :: string
  url_protocol :: string
  url_username :: string
  url_password :: string

datatype agent_proxy = NoProxy | ProxyURL proxy_url | NotAURL

record session_options =
  opt_port :: "js_port option"
  opt_agent :: "agent_proxy option"
  opt_timeout :: "nat option"

text \<open>
  What session creation does to the outside, in order: the \<^verbatim>\<open>CONNECT\<close> request to the proxy
  (host, port, path, headers), the destruction of the tunnel socket, \<^verbatim>\<open>http2.connect\<close> to a
  URL over a TLS socket on the tunnel (server name, ALPN protocols) or directly (server
  name, ALPN protocols), the session timeout and the closing of the session.
\<close>

datatype io_action =
    ConnectRequest string string string "(string \<times> string) list"
  | SocketDestroy
  | Http2ConnectOverTunnel string string "string list"
  | Http2ConnectDirect string string "string list"
  | SetSessionTimeout nat
  | SessionClose

text \<open>
  The answers of the outside: to the \<^verbatim>\<open>CONNECT\<close> request, a response with a status or an
  error; for the session, the first of \<^verbatim>\<open>connect\<close>, \<^verbatim>\<open>error\<close> and the timeout.
\<close>

datatype connect_reply = ConnectResponse nat | ConnectRequestError string

datatype session_reply = SessionConnected | SessionError string | SessionTimedOut

datatype create_result = Resolved | Rejected string

definition targetPort :: "session_options \<Rightarrow> string" where
  "targetPort opts =
     (case opt_port opts of
        None \<Rightarrow> ''443''
      | Some p \<Rightarrow> if truthy_port p then render_port p else ''443'')"

definition proxyPort :: "proxy_url \<Rightarrow> string" where
  "proxyPort proxyUrl =
     (if url_port proxyUrl \<noteq> [] then url_port proxyUrl
      else if url_protocol proxyUrl = ''https:'' then ''443'' else ''80'')"

definition connectHeaders :: "string \<Rightarrow> session_options \<Rightarrow> proxy_url \<Rightarrow> (string \<times> string) list" where
  "connectHeaders hostname opts proxyUrl =
     (''Host'', hostname @ '':'' @ targetPort opts)
     # (if url_username proxyUrl \<noteq> [] \<and> url_password proxyUrl \<noteq> []
        then [(''Proxy-Authorization'',
               ''Basic '' @ base64 (url_username proxyUrl @ '':'' @ url_password proxyUrl))]
        else [])"

text \<open>The end of both modes: the timeout is set, and the first session event settles.\<close>

definition await_session ::
  "string \<Rightarrow> session_options \<Rightarrow> session_reply \<Rightarrow> io_action list \<times> create_result" where
  "await_session hostname opts sreply =
     (let timeout = (case opt_timeout opts of
                       None \<Rightarrow> 30000
                     | Some t \<Rightarrow> if t \<noteq> 0 then t else 30000)
      in case sreply of
           SessionConnected \<Rightarrow> ([SetSessionTimeout timeout], Resolved)
         | SessionError err \<Rightarrow> ([SetSessionTimeout timeout], Rejected err)
         | SessionTimedOut \<Rightarrow>
             ([SetSessionTimeout timeout, SessionClose],
              Rejected (''HTTP/2 session timeout for '' @ hostname)))"

definition createSession ::
  "string \<Rightarrow> session_options \<Rightarrow> connect_reply \<Rightarrow> session_reply
     \<Rightarrow> io_action list \<times> create_result" where
  "createSession hostname opts creply sreply =
     (let url = ''https://'' @ hostname @ '':'' @ targetPort opts
      in case opt_agent opts of
           Some NotAURL \<Rightarrow> ([], Rejected ''Invalid URL'')
         | Some (ProxyURL proxyUrl) \<Rightarrow>
             (let connectReq = ConnectRequest (url_hostname proxyUrl) (proxyPort proxyUrl)
                                 (hostname @ '':'' @ targetPort opts)
                                 (connectHeaders hostname opts proxyUrl)
              in case creply of
                   ConnectRequestError err \<Rightarrow> ([connectReq], Rejected err)
                 | ConnectResponse status \<Rightarrow>
                     if status \<noteq> 200
                     then ([connectReq, SocketDestroy],
                           Rejected (''Proxy CONNECT failed with status '' @ show_nat status))
                     else (let (acts, res) = await_session hostname opts sreply
                           in (connectReq # Http2ConnectOverTunnel url hostname [''h2''] # acts,
                               res)))
         | _ \<Rightarrow>
             (let (acts, res) = await_session hostname opts sreply
              in (Http2ConnectDirect url hostname [''h2''] # acts, res)))"

fun is_tls_action :: "io_action \<Rightarrow> bool" where
  "is_tls_action (Http2ConnectOverTunnel url servername alpn) = True"
| "is_tls_action (Http2ConnectDirect url servername alpn) = True"
| "is_tls_action _ = False"

definition example_proxy_url :: proxy_url where
  "example_proxy_url =
     \<lparr>url_hostname = ''p'', url_port = ''8080'', url_protocol = ''http:'',
      url_username = ''u'', url_password = ''p''\<rparr>"

definition example_session_options :: session_options where
  "example_session_options =
     \<lparr>opt_port = Some (PortString ''443''), opt_agent = Some (ProxyURL example_proxy_url),
      opt_timeout = Some 600000\<rparr>"

section \<open>Verified properties\<close>

subsection \<open>Strings\<close>

lemma split_on_ne [simp]: "split_on d s \<noteq> []"
  by (induction s) (auto split: list.splits)

lemma split_on_no_sep: "w \<in> set (split_on d s) \<Longrightarrow> d \<notin> set w"
  by (induction s arbitrary: w) (auto split: list.splits if_splits)

lemma split_on_nosep_id: "d \<notin> set x \<Longrightarrow> split_on d x = [x]"
  by (induction x) auto

lemma split_on_append: "d \<notin> set x \<Longrightarrow> split_on d (x @ d # r) = x # split_on d r"
  by (induction x) auto

lemma split_join:
  "xs \<noteq> [] \<Longrightarrow> \<forall>x\<in>set xs. d \<notin> set x \<Longrightarrow> split_on d (join_with [d] xs) = xs"
proof (induction "[d]" xs rule: join_with.induct)
  case 1
  then show ?case by simp
next
  case (2 x)
  then show ?case by (simp add: split_on_nosep_id)
next
  case (3 x y ys)
  then show ?case by (simp add: split_on_append)
qed

lemma strip_leading_subset: "set (strip_leading ws s) \<subseteq> set s"
proof (induction ws s rule: strip_leading.induct)
  case (1 ws)
  then show ?case by simp
next
  case (2 ws c cs)
  show ?case
  proof (cases "find (\<lambda>w. w \<noteq> [] \<and> prefix w (c # cs)) ws")
    case None
    then show ?thesis by simp
  next
    case (Some w)
    have "set (strip_leading ws (drop (length w - 1) cs)) \<subseteq> set (drop (length w - 1) cs)"
      using 2 Some by simp
    also have "\<dots> \<subseteq> set cs" by (rule set_drop_subset)
    finally show ?thesis using Some by auto
  qed
qed

lemma trim_subset: "set (trim s) \<subseteq> set s"
  using strip_leading_subset[of "map rev white_space" "rev (strip_leading white_space s)"]
    strip_leading_subset[of white_space s]
  by (auto simp: trim_def)

text \<open>A token between a no-break space with a tab and an ideographic space with a space.\<close>

lemma trim_unicode_white_space:
  "trim ([CHR 0xC2, CHR 0xA0, CHR 0x09] @ ''context-1m-2025-08-07''
           @ [CHR 0xE3, CHR 0x80, CHR 0x80, CHR 0x20])
     = ''context-1m-2025-08-07''"
  by code_simp

lemma includes_iff: "str_includes s t \<longleftrightarrow> (\<exists>p q. s = p @ t @ q)"
proof (induction s)
  case Nil
  then show ?case by auto
next
  case (Cons c cs)
  show ?case
  proof
    assume "str_includes (c # cs) t"
    then consider "prefix t (c # cs)" | "str_includes cs t" by auto
    then show "\<exists>p q. c # cs = p @ t @ q"
    proof cases
      case 1
      then obtain q where "c # cs = t @ q" by (auto simp: prefix_def)
      then have "c # cs = [] @ t @ q" by simp
      then show ?thesis by blast
    next
      case 2
      with Cons obtain p q where "cs = p @ t @ q" by auto
      then have "c # cs = (c # p) @ t @ q" by simp
      then show ?thesis by blast
    qed
  next
    assume "\<exists>p q. c # cs = p @ t @ q"
    then obtain p q where pq: "c # cs = p @ t @ q" by auto
    show "str_includes (c # cs) t"
    proof (cases p)
      case Nil
      with pq have "prefix t (c # cs)" by (simp add: prefix_def)
      then show ?thesis by simp
    next
      case (Cons a p')
      with pq have "cs = p' @ t @ q" by simp
      with Cons.IH show ?thesis by auto
    qed
  qed
qed


subsection \<open>Beta header\<close>

lemma orderedFeatures_shape:
  "\<exists>known extras. orderedFeatures fs = known @ extras \<and> subseq known FEATURE_ORDER
      \<and> set extras \<inter> set FEATURE_ORDER = {}"
proof -
  let ?k = "filter (\<lambda>f. f \<in> set fs) FEATURE_ORDER"
  let ?e = "filter (\<lambda>f. f \<notin> set FEATURE_ORDER) fs"
  have "orderedFeatures fs = ?k @ ?e" by (simp add: orderedFeatures_def)
  moreover have "subseq ?k FEATURE_ORDER" by simp
  moreover have "set ?e \<inter> set FEATURE_ORDER = {}" by auto
  ultimately show ?thesis by blast
qed

lemma set_orderedFeatures: "set (orderedFeatures fs) = set fs"
  by (auto simp: orderedFeatures_def)

lemma set_add_ok: "\<forall>t\<in>set fs. token_ok t \<Longrightarrow> token_ok x \<Longrightarrow> \<forall>t\<in>set (set_add x fs). token_ok t"
  by (auto simp: set_add_def)

lemma add_base_features_ok:
  "\<forall>t\<in>set fs. token_ok t \<Longrightarrow> \<forall>w\<in>set ws. CHR '','' \<notin> set w
     \<Longrightarrow> \<forall>t\<in>set (add_base_features mdl ws fs). token_ok t"
proof (induction ws arbitrary: fs)
  case Nil
  then show ?case by simp
next
  case (Cons w ws)
  have nocomma: "CHR '','' \<notin> set (trim w)"
    using Cons.prems(2) trim_subset[of w] by auto
  have "\<forall>t\<in>set (if trim w \<noteq> [] \<and> shouldIncludeFeature (trim w) mdl
                     then set_add (trim w) fs else fs). token_ok t"
    using Cons.prems(1) nocomma by (auto simp: set_add_def token_ok_def)
  moreover have "\<forall>w\<in>set ws. CHR '','' \<notin> set w" using Cons.prems(2) by simp
  ultimately show ?case using Cons.IH by (simp add: Let_def)
qed

lemma collect_features_ok:
  "\<forall>t\<in>set (collect_features mdl base client opts). token_ok t"
proof -
  let ?f1 = "if base \<noteq> [] then add_base_features mdl (split_on (CHR '','') base) [] else []"
  have f1: "\<forall>t\<in>set ?f1. token_ok t"
    using add_base_features_ok[of "[]" "split_on (CHR '','') base" mdl]
    by (auto dest: split_on_no_sep)
  have c1: "token_ok ''context-1m-2025-08-07''" by (simp add: token_ok_def)
  have c2: "token_ok ''token-counting-2024-11-01''" by (simp add: token_ok_def)
  let ?f2 = "if client \<noteq> [] \<and> str_includes client ''context-1m-2025-08-07''
             then set_add ''context-1m-2025-08-07'' ?f1 else ?f1"
  have f2: "\<forall>t\<in>set ?f2. token_ok t"
    using set_add_ok[OF f1 c1] f1 by presburger
  let ?f3 = "if isCountTokensPath opts then set_add ''token-counting-2024-11-01'' ?f2 else ?f2"
  have f3: "\<forall>t\<in>set ?f3. token_ok t"
    using set_add_ok[OF f2 c2] f2 by presburger
  show ?thesis unfolding collect_features_def Let_def using f3 by simp
qed

lemma join_with_empty_iff:
  "\<forall>t\<in>set xs. t \<noteq> [] \<Longrightarrow> join_with d xs = [] \<longleftrightarrow> xs = []"
  by (induction d xs rule: join_with.induct) auto

lemma buildBetaHeader_Some:
  assumes "buildBetaHeader mdl base client opts = Some h"
  shows "h \<noteq> [] \<and> split_on (CHR '','') h = orderedFeatures (collect_features mdl base client opts)"
proof -
  let ?toks = "orderedFeatures (collect_features mdl base client opts)"
  from assms have h: "h = join_with '','' ?toks" and ne: "h \<noteq> []"
    by (auto simp: buildBetaHeader_def Let_def split: if_splits)
  have ok: "\<forall>t\<in>set ?toks. token_ok t"
    using collect_features_ok by (simp add: set_orderedFeatures)
  from ne h have "?toks \<noteq> []" by auto
  moreover from ok have "\<forall>x\<in>set ?toks. CHR '','' \<notin> set x" by (simp add: token_ok_def)
  ultimately have "split_on (CHR '','') (join_with [CHR '',''] ?toks) = ?toks"
    by (rule split_join)
  with h ne show ?thesis by simp
qed

lemma request_head_beta:
  assumes "map_of sh ''anthropic-beta'' = None"
  shows "head_headers (request_head_of sh cfg ver acct rnd tok bm opts ch p) ''anthropic-beta''
           = getBetaHeader cfg (case bm of None \<Rightarrow> ''unknown''
                                 | Some m \<Rightarrow> if m \<noteq> [] then m else ''unknown'') opts ch"
proof -
  have fixed: "map_of (FIXED_HEADERS @ sh) ''anthropic-beta'' = None"
    using assms by (simp add: FIXED_HEADERS_def map_add_def)
  show ?thesis
    unfolding request_head_of_def Let_def
    using fixed by (auto split: option.splits)
qed

lemma request_head_path:
  "head_path (request_head_of sh cfg ver acct rnd tok bm opts ch p)
     = (case getBetaHeader cfg (case bm of None \<Rightarrow> ''unknown''
                                 | Some m \<Rightarrow> if m \<noteq> [] then m else ''unknown'') opts ch of
          Some b \<Rightarrow> p @ ''?beta=true'' | None \<Rightarrow> p)"
  unfolding request_head_of_def Let_def by (auto split: option.splits)

lemma no_query_suffix: "CHR ''?'' \<notin> set p \<Longrightarrow> \<not> suffix ''?beta=true'' p"
  by (auto simp: suffix_def)

text \<open>
  Claim C6.  Whatever the model, the base header and the client header are, the
  \<^verbatim>\<open>anthropic-beta\<close> header that both request functions set is not empty, and its tokens (the
  header split at its commas) are some of the six canonical tokens in the canonical order,
  followed by tokens outside the canonical list; the same holds of every header
  \<^verbatim>\<open>buildBetaHeader\<close> returns.  The outbound path of both request functions ends with
  \<^verbatim>\<open>?beta=true\<close> exactly when a non-empty \<^verbatim>\<open>anthropic-beta\<close> header is set.  The path before
  the suffix is a URL \<^verbatim>\<open>pathname\<close>, which holds no question mark.
\<close>

theorem beta_header_canonical_order:
  assumes "CHR ''?'' \<notin> set requestPath"
    and "r = makeClaudeRequest_head cfg ver acct rnd tok bm opts ch requestPath
         \<or> r = makeClaudeStreamRequest_head cfg ver acct rnd tok bm opts ch requestPath"
  shows "(\<forall>h. head_headers r ''anthropic-beta'' = Some h \<longrightarrow>
            h \<noteq> [] \<and>
            (\<exists>known extras. split_on (CHR '','') h = known @ extras
                \<and> subseq known FEATURE_ORDER \<and> set extras \<inter> set FEATURE_ORDER = {}))
         \<and> (\<forall>h. buildBetaHeader mdl base client bopts = Some h \<longrightarrow>
            h \<noteq> [] \<and>
            (\<exists>known extras. split_on (CHR '','') h = known @ extras
                \<and> subseq known FEATURE_ORDER \<and> set extras \<inter> set FEATURE_ORDER = {}))
         \<and> (suffix ''?beta=true'' (head_path r)
              \<longleftrightarrow> (\<exists>h. head_headers r ''anthropic-beta'' = Some h \<and> h \<noteq> []))"
proof -
  have built: "h \<noteq> [] \<and>
            (\<exists>known extras. split_on (CHR '','') h = known @ extras
                \<and> subseq known FEATURE_ORDER \<and> set extras \<inter> set FEATURE_ORDER = {})"
    if "buildBetaHeader m b c ro = Some h" for m b c ro h
    using buildBetaHeader_Some[OF that] orderedFeatures_shape by simp
  let ?m = "case bm of None \<Rightarrow> ''unknown'' | Some m \<Rightarrow> if m \<noteq> [] then m else ''unknown''"
  have "\<exists>sh. map_of sh ''anthropic-beta'' = None
           \<and> r = request_head_of sh cfg ver acct rnd tok bm opts ch requestPath"
  proof (rule disjE[OF assms(2)])
    assume "r = makeClaudeRequest_head cfg ver acct rnd tok bm opts ch requestPath"
    then have "map_of [] ''anthropic-beta'' = None
           \<and> r = request_head_of [] cfg ver acct rnd tok bm opts ch requestPath"
      by (simp add: makeClaudeRequest_head_def)
    then show ?thesis by blast
  next
    assume "r = makeClaudeStreamRequest_head cfg ver acct rnd tok bm opts ch requestPath"
    then have "map_of STREAM_HEADER ''anthropic-beta'' = None
           \<and> r = request_head_of STREAM_HEADER cfg ver acct rnd tok bm opts ch requestPath"
      by (simp add: makeClaudeStreamRequest_head_def STREAM_HEADER_def)
    then show ?thesis by blast
  qed
  then obtain sh where sh: "map_of sh ''anthropic-beta'' = None"
    and r: "r = request_head_of sh cfg ver acct rnd tok bm opts ch requestPath"
    by blast
  have hd: "head_headers r ''anthropic-beta'' = getBetaHeader cfg ?m opts ch"
    using request_head_beta[OF sh] r by simp
  have pth: "head_path r = (case getBetaHeader cfg ?m opts ch of
          Some b \<Rightarrow> requestPath @ ''?beta=true'' | None \<Rightarrow> requestPath)"
    using request_head_path r by simp
  have emitted: "h \<noteq> [] \<and>
            (\<exists>known extras. split_on (CHR '','') h = known @ extras
                \<and> subseq known FEATURE_ORDER \<and> set extras \<inter> set FEATURE_ORDER = {})"
    if "head_headers r ''anthropic-beta'' = Some h" for h
  proof -
    from that hd have "getBetaHeader cfg ?m opts ch = Some h" by simp
    then have "buildBetaHeader ?m (case betaHeader opts of Some b \<Rightarrow> b | None \<Rightarrow> cfg)
                 (case ch ''anthropic-beta'' of Some c \<Rightarrow> c | None \<Rightarrow> []) opts = Some h"
      by (simp add: getBetaHeader_def Let_def)
    then show ?thesis by (rule built)
  qed
  have path: "suffix ''?beta=true'' (head_path r)
              \<longleftrightarrow> (\<exists>h. head_headers r ''anthropic-beta'' = Some h \<and> h \<noteq> [])"
  proof (cases "getBetaHeader cfg ?m opts ch")
    case None
    with hd pth no_query_suffix[OF assms(1)] show ?thesis by simp
  next
    case (Some b)
    with hd have "b \<noteq> []" using emitted by simp
    with Some hd pth show ?thesis by (simp add: suffix_def)
  qed
  from emitted built path show ?thesis by blast
qed

text \<open>
  A request for a Sonnet 4 model whose configured base header lists four tokens out of
  order, one of them unknown, and whose client asks for the 1M context.
\<close>

theorem beta_header_canonical_order_witness:
  "CHR ''?'' \<notin> set ''/v1/messages''
   \<and> head_headers
        (makeClaudeRequest_head
           ''oauth-2025-04-20, foo ,claude-code-20250219,interleaved-thinking-2025-05-14''
           ''2023-06-01'' None
           \<lparr>userAgent = ''ua'', packageVersion = ''1'', os = ''Linux'', arch = ''x64'',
            runtime = ''node'', runtimeVersion = ''v20''\<rparr>
           ''token'' (Some ''claude-sonnet-4-20250514'')
           \<lparr>customPath = None, betaHeader = None\<rparr>
           [''anthropic-beta'' \<mapsto> ''context-1m-2025-08-07''] ''/v1/messages'')
        ''anthropic-beta''
      = Some ''claude-code-20250219,oauth-2025-04-20,interleaved-thinking-2025-05-14,context-1m-2025-08-07,foo''
   \<and> (\<exists>known extras.
         split_on (CHR '','')
           ''claude-code-20250219,oauth-2025-04-20,interleaved-thinking-2025-05-14,context-1m-2025-08-07,foo''
           = known @ extras
         \<and> subseq known FEATURE_ORDER \<and> set extras \<inter> set FEATURE_ORDER = {})
   \<and> suffix ''?beta=true''
        (head_path
           (makeClaudeRequest_head
              ''oauth-2025-04-20, foo ,claude-code-20250219,interleaved-thinking-2025-05-14''
              ''2023-06-01'' None
              \<lparr>userAgent = ''ua'', packageVersion = ''1'', os = ''Linux'', arch = ''x64'',
               runtime = ''node'', runtimeVersion = ''v20''\<rparr>
              ''token'' (Some ''claude-sonnet-4-20250514'')
              \<lparr>customPath = None, betaHeader = None\<rparr>
              [''anthropic-beta'' \<mapsto> ''context-1m-2025-08-07''] ''/v1/messages''))"
proof -
  let ?r = "makeClaudeRequest_head
              ''oauth-2025-04-20, foo ,claude-code-20250219,interleaved-thinking-2025-05-14''
              ''2023-06-01'' None
              \<lparr>userAgent = ''ua'', packageVersion = ''1'', os = ''Linux'', arch = ''x64'',
               runtime = ''node'', runtimeVersion = ''v20''\<rparr>
              ''token'' (Some ''claude-sonnet-4-20250514'')
              \<lparr>customPath = None, betaHeader = None\<rparr>
              [''anthropic-beta'' \<mapsto> ''context-1m-2025-08-07''] ''/v1/messages''"
  have p: "CHR ''?'' \<notin> set ''/v1/messages''" by simp
  have h: "head_headers ?r ''anthropic-beta''
         = Some ''claude-code-20250219,oauth-2025-04-20,interleaved-thinking-2025-05-14,context-1m-2025-08-07,foo''"
    by code_simp
  from beta_header_canonical_order[OF p disjI1[OF refl[of ?r]],
      of "''claude-sonnet-4-20250514''" "''oauth-2025-04-20''" "[]"
         "\<lparr>customPath = None, betaHeader = None\<rparr>"]
  show ?thesis using p h by simp
qed

subsection \<open>Body preparer: what each step leaves alone\<close>

lemma split_variant_frame:
  "top_p (split_variant b) = top_p b" "metadata (split_variant b) = metadata b"
  "max_tokens (split_variant b) = max_tokens b" "thinking (split_variant b) = thinking b"
  by (simp_all add: split_variant_def Let_def split: option.splits)

lemma strip_security_directive_frame:
  "top_p (strip_security_directive b) = top_p b"
  "metadata (strip_security_directive b) = metadata b"
  "max_tokens (strip_security_directive b) = max_tokens b"
  "thinking (strip_security_directive b) = thinking b"
  "model (strip_security_directive b) = model b"
  "modelVariant (strip_security_directive b) = modelVariant b"
  by (simp_all add: strip_security_directive_def split: system_field.splits list.splits)

lemma strip_system_reminders_frame:
  "top_p (strip_system_reminders b) = top_p b"
  "metadata (strip_system_reminders b) = metadata b"
  "max_tokens (strip_system_reminders b) = max_tokens b"
  "thinking (strip_system_reminders b) = thinking b"
  "model (strip_system_reminders b) = model b"
  "modelVariant (strip_system_reminders b) = modelVariant b"
  by (simp_all add: strip_system_reminders_def)

lemma validateAndLimitMaxTokens_frame:
  "top_p (validateAndLimitMaxTokens t b) = top_p b"
  "metadata (validateAndLimitMaxTokens t b) = metadata b"
  "thinking (validateAndLimitMaxTokens t b) = thinking b"
  "model (validateAndLimitMaxTokens t b) = model b"
  "modelVariant (validateAndLimitMaxTokens t b) = modelVariant b"
  by (simp_all add: validateAndLimitMaxTokens_def Let_def split: option.splits)

lemma stripTtlFromCacheControl_frame:
  "top_p (stripTtlFromCacheControl b) = top_p b"
  "metadata (stripTtlFromCacheControl b) = metadata b"
  "max_tokens (stripTtlFromCacheControl b) = max_tokens b"
  "thinking (stripTtlFromCacheControl b) = thinking b"
  "model (stripTtlFromCacheControl b) = model b"
  "modelVariant (stripTtlFromCacheControl b) = modelVariant b"
  by (simp_all add: stripTtlFromCacheControl_def)

lemma inject_claude_code_prompt_frame:
  "top_p (inject_claude_code_prompt b) = top_p b"
  "metadata (inject_claude_code_prompt b) = metadata b"
  "max_tokens (inject_claude_code_prompt b) = max_tokens b"
  "thinking (inject_claude_code_prompt b) = thinking b"
  "model (inject_claude_code_prompt b) = model b"
  "modelVariant (inject_claude_code_prompt b) = modelVariant b"
  by (simp_all add: inject_claude_code_prompt_def Let_def split: system_field.splits)

lemma apply_system_prompt_frame:
  "top_p (apply_system_prompt p b) = top_p b"
  "metadata (apply_system_prompt p b) = metadata b"
  "max_tokens (apply_system_prompt p b) = max_tokens b"
  "thinking (apply_system_prompt p b) = thinking b"
  "model (apply_system_prompt p b) = model b"
  "modelVariant (apply_system_prompt p b) = modelVariant b"
  by (simp_all add: apply_system_prompt_def Let_def split: system_field.splits)

lemma delete_top_p_frame:
  "metadata (delete_top_p b) = metadata b"
  "max_tokens (delete_top_p b) = max_tokens b"
  "thinking (delete_top_p b) = thinking b"
  "model (delete_top_p b) = model b"
  "modelVariant (delete_top_p b) = modelVariant b"
  by (simp_all add: delete_top_p_def split: json_field.splits)

lemma replaceClientId_frame:
  "top_p (replaceClientId u c b) = top_p b"
  "max_tokens (replaceClientId u c b) = max_tokens b"
  "thinking (replaceClientId u c b) = thinking b"
  "model (replaceClientId u c b) = model b"
  "modelVariant (replaceClientId u c b) = modelVariant b"
  by (simp_all add: replaceClientId_def Let_def split: option.splits)

lemma apply_thinking_frame:
  "top_p (apply_thinking v b) = top_p b"
  "metadata (apply_thinking v b) = metadata b"
  "max_tokens (apply_thinking v b) = max_tokens b"
  "model (apply_thinking v b) = model b"
  "modelVariant (apply_thinking v b) = modelVariant b"
  by (simp_all add: apply_thinking_def Let_def)

lemmas preparer_frame =
  split_variant_frame strip_security_directive_frame strip_system_reminders_frame
  validateAndLimitMaxTokens_frame stripTtlFromCacheControl_frame
  inject_claude_code_prompt_frame apply_system_prompt_frame delete_top_p_frame
  replaceClientId_frame apply_thinking_frame

lemma top_p_delete_top_p: "top_p (delete_top_p b) = (if top_p b = Null then Null else Absent)"
  by (simp add: delete_top_p_def split: json_field.splits)

lemma processRequestBody_top_p:
  "top_p (processRequestBody env body ch acct False) = (if top_p body = Null then Null else Absent)"
  by (simp add: processRequestBody_def Let_def preparer_frame top_p_delete_top_p
           split: option.splits)

lemma processRequestBody_count_tokens:
  "processRequestBody env body ch acct True = body"
  by (simp add: processRequestBody_def)

text \<open>
  Claim C5 (amended).  A \<^verbatim>\<open>count_tokens\<close> request is returned as it came, \<^verbatim>\<open>top_p\<close>
  included.  On every other request the outbound body has no \<^verbatim>\<open>top_p\<close> field when the
  incoming \<^verbatim>\<open>top_p\<close> is absent or a number, and keeps a \<^verbatim>\<open>top_p\<close> that is \<^verbatim>\<open>null\<close>.
\<close>

theorem top_p_removed_unless_null_or_count_tokens:
  "processRequestBody env body ch acct True = body
   \<and> top_p (processRequestBody env body ch acct False)
       = (if top_p body = Null then Null else Absent)"
  by (simp add: processRequestBody_count_tokens processRequestBody_top_p)

text \<open>
  As stated, C5 fails on a \<^verbatim>\<open>count_tokens\<close> request with \<^verbatim>\<open>top_p: 0.9\<close>, and on an ordinary
  request with \<^verbatim>\<open>top_p: null\<close>: both fields reach the outbound body.
\<close>

theorem top_p_counterexample:
  "top_p (processRequestBody example_env example_body Map.empty None True) = Value 0.9
   \<and> top_p (processRequestBody example_env (example_body\<lparr>top_p := Null\<rparr>) Map.empty None False)
       = Null"
  by (simp add: processRequestBody_count_tokens processRequestBody_top_p example_body_def)

subsection \<open>Thinking variant\<close>

lemma lastIndexOf_thinking:
  "lastIndexOf (CHR '':'') (base @ '':thinking'') = Some (length base)"
proof -
  have "takeWhile (\<lambda>x. x \<noteq> CHR '':'') (rev (base @ '':thinking'')) = ''gnikniht''"
    by simp
  then have "length (takeWhile (\<lambda>x. x \<noteq> CHR '':'') (rev (base @ '':thinking''))) = 8"
    by simp
  then show ?thesis
    unfolding lastIndexOf_def by simp
qed

lemma split_variant_thinking:
  assumes "model b = Some (base @ '':thinking'')"
  shows "model (split_variant b) = Some base"
    and "modelVariant (split_variant b)
           = (if \<not> truthy_str (modelVariant b) then Some ''thinking'' else modelVariant b)"
  using assms
  by (simp_all add: split_variant_def truthy_str_def lastIndexOf_thinking
        supportedVariants_def Let_def)

lemma thinking_apply_thinking:
  "thinking (apply_thinking (Some ''thinking'') b)
     = Some \<lparr>thinking_type = ''enabled'',
             budget_tokens = (if truthy_num (max_tokens b) then the (max_tokens b) - 1 else 31999)\<rparr>"
  by (simp add: apply_thinking_def Let_def)

lemma processRequestBody_fields:
  "model (processRequestBody env body ch acct False) = model (split_variant body)"
  "max_tokens (processRequestBody env body ch acct False)
     = max_tokens (validateAndLimitMaxTokens (pricing env)
         (strip_system_reminders (strip_security_directive
            (if truthy_str (modelVariant (split_variant body))
             then (split_variant body)\<lparr>modelVariant := None\<rparr> else split_variant body))))"
  by (simp_all add: processRequestBody_def Let_def preparer_frame split: option.splits)

lemma validate_max_tokens_cong:
  assumes "model b = model b'" "max_tokens b = max_tokens b'"
  shows "max_tokens (validateAndLimitMaxTokens t b) = max_tokens (validateAndLimitMaxTokens t b')"
  using assms by (simp add: validateAndLimitMaxTokens_def Let_def split: option.splits)

lemma processRequestBody_max_tokens:
  "max_tokens (processRequestBody env body ch acct False)
     = max_tokens (validateAndLimitMaxTokens (pricing env)
                     (body\<lparr>model := model (split_variant body)\<rparr>))"
  unfolding processRequestBody_fields
  by (rule validate_max_tokens_cong) (simp_all add: preparer_frame)

text \<open>The last step of the preparer, and the body it is applied to.\<close>

lemma processRequestBody_last_step:
  "\<exists>b10. processRequestBody env body ch acct False
            = apply_thinking (modelVariant (split_variant body)) b10
        \<and> thinking b10 = thinking body"
  unfolding processRequestBody_def Let_def if_False
  by (rule exI, rule conjI, rule refl) (simp add: preparer_frame split: option.splits)

lemma processRequestBody_thinking:
  "thinking (processRequestBody env body ch acct False)
     = (if modelVariant (split_variant body) = Some ''thinking''
        then Some \<lparr>thinking_type = ''enabled'',
                budget_tokens =
                  (if truthy_num (max_tokens (processRequestBody env body ch acct False))
                   then the (max_tokens (processRequestBody env body ch acct False)) - 1
                   else 31999)\<rparr>
        else thinking body)"
proof -
  obtain b10 where out: "processRequestBody env body ch acct False
            = apply_thinking (modelVariant (split_variant body)) b10"
    and th: "thinking b10 = thinking body"
    using processRequestBody_last_step by blast
  have mt: "max_tokens (processRequestBody env body ch acct False) = max_tokens b10"
    by (simp add: out preparer_frame)
  show ?thesis
  proof (cases "modelVariant (split_variant body) = Some ''thinking''")
    case True
    then show ?thesis unfolding mt by (simp add: out thinking_apply_thinking)
  next
    case False
    then show ?thesis by (simp add: out apply_thinking_def th)
  qed
qed

text \<open>
  Claim C7 (amended).  On a request that is not a \<^verbatim>\<open>count_tokens\<close> request, whose model
  ends with \<^verbatim>\<open>:thinking\<close> and whose body brings no \<^verbatim>\<open>_modelVariant\<close> of its own, the outbound
  model is the base name, the outbound \<^verbatim>\<open>max_tokens\<close> is the request's after
  \<^verbatim>\<open>_validateAndLimitMaxTokens\<close> has limited it for the base model, and \<^verbatim>\<open>thinking\<close> is
  enabled with a budget of that outbound \<^verbatim>\<open>max_tokens\<close> minus one when it is present and not
  zero, and of 31999 otherwise.
\<close>

theorem thinking_variant_applied:
  assumes "model body = Some (base @ '':thinking'')"
    and "\<not> truthy_str (modelVariant body)"
  shows "model (processRequestBody env body ch acct False) = Some base
     \<and> max_tokens (processRequestBody env body ch acct False)
         = max_tokens (validateAndLimitMaxTokens (pricing env) (body\<lparr>model := Some base\<rparr>))
     \<and> thinking (processRequestBody env body ch acct False)
         = Some \<lparr>thinking_type = ''enabled'',
                 budget_tokens =
                   (if truthy_num (max_tokens (processRequestBody env body ch acct False))
                    then the (max_tokens (processRequestBody env body ch acct False)) - 1
                    else 31999)\<rparr>"
proof -
  have m: "model (split_variant body) = Some base"
    and v: "modelVariant (split_variant body) = Some ''thinking''"
    using split_variant_thinking[OF assms(1)] assms(2) by simp_all
  show ?thesis
    using m v processRequestBody_thinking[of env body ch acct]
    by (simp add: processRequestBody_fields(1) processRequestBody_max_tokens)
qed

text \<open>
  The scenario of the specification: \<^verbatim>\<open>claude-sonnet-4-20250514:thinking\<close> with
  \<^verbatim>\<open>max_tokens\<close> 8000, under a pricing table whose ceiling for the model is 64000.
\<close>

theorem thinking_variant_applied_witness:
  "model example_body = Some (''claude-sonnet-4-20250514'' @ '':thinking'')
   \<and> \<not> truthy_str (modelVariant example_body)
   \<and> max_tokens example_body = Some 8000
   \<and> model (processRequestBody example_env example_body Map.empty None False)
        = Some ''claude-sonnet-4-20250514''
   \<and> thinking (processRequestBody example_env example_body Map.empty None False)
        = Some \<lparr>thinking_type = ''enabled'', budget_tokens = 7999\<rparr>"
proof -
  have m: "model example_body = Some (''claude-sonnet-4-20250514'' @ '':thinking'')"
    by (simp add: example_body_def)
  have v: "\<not> truthy_str (modelVariant example_body)"
    by (simp add: example_body_def truthy_str_def)
  have mt: "max_tokens (validateAndLimitMaxTokens (pricing example_env)
              (example_body\<lparr>model := Some ''claude-sonnet-4-20250514''\<rparr>)) = Some 8000"
    by (simp add: validateAndLimitMaxTokens_def example_env_def example_pricing_def
          example_body_def truthy_num_def truthy_str_def)
  from thinking_variant_applied[OF m v, of example_env Map.empty None] mt
  show ?thesis using m v by (simp add: truthy_num_def example_body_def)
qed

text \<open>
  As stated, C7 fails when \<^verbatim>\<open>max_tokens\<close> is present and zero (the budget is 31999, not
  \<open>-1\<close>), on a \<^verbatim>\<open>count_tokens\<close> request (the body is untouched) and when the body carries a
  \<^verbatim>\<open>_modelVariant\<close> of its own (the suffix is cut, \<^verbatim>\<open>thinking\<close> is not set).
\<close>

theorem thinking_variant_counterexample:
  "thinking (processRequestBody example_env (example_body\<lparr>max_tokens := Some 0\<rparr>)
              Map.empty None False)
     = Some \<lparr>thinking_type = ''enabled'', budget_tokens = 31999\<rparr>
   \<and> model (processRequestBody example_env example_body Map.empty None True)
       = Some ''claude-sonnet-4-20250514:thinking''
   \<and> thinking (processRequestBody example_env example_body Map.empty None True) = None
   \<and> thinking (processRequestBody example_env (example_body\<lparr>modelVariant := Some ''fast''\<rparr>)
                Map.empty None False) = None"
  by code_simp

subsection \<open>Unified client id\<close>

lemma processRequestBody_metadata:
  "metadata (processRequestBody env body ch acct False)
     = (case acct of
          None \<Rightarrow> metadata body
        | Some a \<Rightarrow> if useUnifiedClientId a \<and> unifiedClientId a \<noteq> []
                    then metadata (replaceClientId (randomUUID env) (unifiedClientId a) body)
                    else metadata body)"
proof -
  have cong: "metadata (replaceClientId u c b) = metadata (replaceClientId u c b')"
    if "metadata b = metadata b'" for u c b b'
    using that by (simp add: replaceClientId_def Let_def split: option.splits)
  show ?thesis
    unfolding processRequestBody_def Let_def if_False
    by (auto simp: preparer_frame split: option.splits intro!: cong)
qed

lemma body_user_id_replaceClientId:
  assumes "c \<noteq> []"
  shows "body_user_id (replaceClientId u c b)
     = (if \<not> truthy_str (body_user_id b) then Some (''user_'' @ c @ ''_account__session_'' @ u)
        else case user_id_match (the (body_user_id b)) of
               Some g \<Rightarrow> Some (''user_'' @ c @ g)
             | None \<Rightarrow> body_user_id b)"
  using assms
  by (auto simp: replaceClientId_def body_user_id_def Let_def truthy_str_def split: option.splits)

lemma take_drop_pattern:
  "length p = n \<Longrightarrow>
     (length (p @ t) = n + 36 \<and> take n (p @ t) = p \<and> list_all P (drop n (p @ t)))
       \<longleftrightarrow> (length t = 36 \<and> list_all P t)"
  by auto

lemma matches_unified_pattern_append:
  "matches_unified_pattern c (''user_'' @ c @ ''_account__session_'' @ t)
     \<longleftrightarrow> length t = 36 \<and> list_all is_hex_dash t"
proof -
  have lp: "length (''user_'' @ c @ ''_account__session_'') = length c + 23" by simp
  have eq: "''user_'' @ c @ ''_account__session_'' @ t
              = (''user_'' @ c @ ''_account__session_'') @ t" by simp
  have n: "length c + 59 = (length c + 23) + 36" by simp
  show ?thesis
    unfolding matches_unified_pattern_def eq n by (rule take_drop_pattern[OF lp])
qed

lemma user_id_match_Some:
  assumes "user_id_match s = Some g"
  shows "\<exists>t. g = ''_account__session_'' @ t \<and> length t = 36 \<and> list_all is_hex_dash t"
proof -
  from assms have len: "length s = 123" and g: "g = drop 69 s"
    and mid: "take 18 (drop 69 s) = ''_account__session_''"
    and tl: "list_all is_hex_dash (drop 87 s)"
    by (auto simp: user_id_match_def split: if_splits)
  have "g = take 18 g @ drop 18 g" by simp
  then have "g = ''_account__session_'' @ drop 87 s" using g mid by simp
  moreover have "length (drop 87 s) = 36" using len by simp
  ultimately show ?thesis using tl by blast
qed

text \<open>
  Claim C4 (amended).  For an account with \<^verbatim>\<open>useUnifiedClientId\<close> and a non-empty
  \<^verbatim>\<open>unifiedClientId\<close>, on a request that is not a \<^verbatim>\<open>count_tokens\<close> request: when
  \<^verbatim>\<open>metadata.user_id\<close> is absent or empty, the outbound one is
  \<^verbatim>\<open>user_<unifiedClientId>_account__session_<uuid>\<close> with the fresh UUID; when it matches
  \<^verbatim>\<open>^user_[a-f0-9]{64}(_account__session_[a-f0-9-]{36})$\<close>, the unified id replaces the 64
  digits and the session part is kept; in both cases the result matches
  \<^verbatim>\<open>^user_<unifiedClientId>_account__session_[a-f0-9-]{36}$\<close>.  Any other
  \<^verbatim>\<open>metadata.user_id\<close> is left as it is.
\<close>

theorem unified_client_id_rewrite:
  assumes "useUnifiedClientId a" and "unifiedClientId a \<noteq> []" and "is_uuid (randomUUID env)"
  shows "(if \<not> truthy_str (body_user_id body)
          then body_user_id (processRequestBody env body ch (Some a) False)
                 = Some (''user_'' @ unifiedClientId a @ ''_account__session_'' @ randomUUID env)
             \<and> matches_unified_pattern (unifiedClientId a)
                 (the (body_user_id (processRequestBody env body ch (Some a) False)))
          else if user_id_match (the (body_user_id body)) \<noteq> None
          then body_user_id (processRequestBody env body ch (Some a) False)
                 = Some (''user_'' @ unifiedClientId a @ drop 69 (the (body_user_id body)))
             \<and> matches_unified_pattern (unifiedClientId a)
                 (the (body_user_id (processRequestBody env body ch (Some a) False)))
          else body_user_id (processRequestBody env body ch (Some a) False) = body_user_id body)"
proof -
  let ?out = "processRequestBody env body ch (Some a) False"
  have out: "body_user_id ?out
      = body_user_id (replaceClientId (randomUUID env) (unifiedClientId a) body)"
    using assms(1,2) by (simp add: body_user_id_def processRequestBody_metadata)
  note r = body_user_id_replaceClientId[OF assms(2), of "randomUUID env" body]
  show ?thesis
  proof (cases "truthy_str (body_user_id body)")
    case False
    then have "body_user_id ?out
        = Some (''user_'' @ unifiedClientId a @ ''_account__session_'' @ randomUUID env)"
      using out r by simp
    moreover have "matches_unified_pattern (unifiedClientId a)
        (''user_'' @ unifiedClientId a @ ''_account__session_'' @ randomUUID env)"
      using assms(3) unfolding matches_unified_pattern_append by (simp add: is_uuid_def)
    ultimately show ?thesis using False by simp
  next
    case True
    show ?thesis
    proof (cases "user_id_match (the (body_user_id body))")
      case None
      then show ?thesis using True out r by simp
    next
      case (Some g)
      then have g: "g = drop 69 (the (body_user_id body))"
        by (auto simp: user_id_match_def split: if_splits)
      from user_id_match_Some[OF Some] obtain t where
        t: "g = ''_account__session_'' @ t" "length t = 36" "list_all is_hex_dash t" by blast
      have o: "body_user_id ?out = Some (''user_'' @ unifiedClientId a @ g)"
        using True Some out r by simp
      have "matches_unified_pattern (unifiedClientId a) (''user_'' @ unifiedClientId a @ g)"
        unfolding t(1) matches_unified_pattern_append using t(2,3) by simp
      then show ?thesis using True Some o g by simp
    qed
  qed
qed

theorem unified_client_id_rewrite_witness:
  "useUnifiedClientId example_account \<and> unifiedClientId example_account \<noteq> []
   \<and> is_uuid (randomUUID example_env)
   \<and> body_user_id (processRequestBody example_env example_body Map.empty
        (Some example_account) False)
       = Some (''user_'' @ unifiedClientId example_account @ ''_account__session_''
                @ randomUUID example_env)
   \<and> matches_unified_pattern (unifiedClientId example_account)
        (the (body_user_id (processRequestBody example_env example_body Map.empty
           (Some example_account) False)))"
proof -
  have a: "useUnifiedClientId example_account" "unifiedClientId example_account \<noteq> []"
    by (simp_all add: example_account_def example_unified_id_def)
  have u: "is_uuid (randomUUID example_env)"
    by (simp add: example_env_def is_uuid_def is_hex_dash_def is_hex_def)
  have b: "\<not> truthy_str (body_user_id example_body)"
    by (simp add: body_user_id_def example_body_def truthy_str_def)
  from unified_client_id_rewrite[OF a u, of example_body Map.empty]
  have "body_user_id (processRequestBody example_env example_body Map.empty
            (Some example_account) False)
          = Some (''user_'' @ unifiedClientId example_account @ ''_account__session_''
                   @ randomUUID example_env)
        \<and> matches_unified_pattern (unifiedClientId example_account)
            (the (body_user_id (processRequestBody example_env example_body Map.empty
               (Some example_account) False)))"
    unfolding if_P[OF b] .
  with a u show ?thesis by blast
qed

text \<open>
  As stated, C4 fails for a \<^verbatim>\<open>metadata.user_id\<close> that does not have the expected form:
  \<^verbatim>\<open>client-42\<close> goes out unchanged.
\<close>

theorem unified_client_id_counterexample:
  "body_user_id (processRequestBody example_env
       (example_body\<lparr>metadata := Some \<lparr>user_id = Some ''client-42''\<rparr>\<rparr>)
       Map.empty (Some example_account) False) = Some ''client-42''
   \<and> \<not> matches_unified_pattern (unifiedClientId example_account) ''client-42''"
  by code_simp

subsection \<open>Health updates of \<open>relayRequest\<close>\<close>

text \<open>
  Claim C2 (amended).  For every response of \<^verbatim>\<open>relayRequest\<close> whose status is neither 200
  nor 201, \<^verbatim>\<open>markAccountRateLimited\<close> is called, once, for the selected account exactly in
  two cases: the status is 429, and then \<open>resetAt\<close> is read from the
  \<^verbatim>\<open>anthropic-ratelimit-unified-reset\<close> header when it is present; or the status is none of
  401, 403, 529 and 500 to 599 and the body holds the rate-limit marker (in
  \<^verbatim>\<open>error.message\<close> of a JSON body, anywhere in a body that is not JSON), and then
  \<open>resetAt\<close> is \<^verbatim>\<open>null\<close>.
\<close>

theorem rate_limit_marked_by_status_or_body:
  assumes "statusCode r \<noteq> 200" and "statusCode r \<noteq> 201"
  shows "filter is_rate_limit_call (relayRequest_calls env accountId accountType sessionHash r)
     = (if statusCode r = 429
        then [MarkAccountRateLimited accountId accountType sessionHash
                (truthy_header (responseHeaders r) ''anthropic-ratelimit-unified-reset'')]
        else if statusCode r \<noteq> 401 \<and> statusCode r \<noteq> 403 \<and> statusCode r \<noteq> 529
                \<and> \<not> (500 \<le> statusCode r \<and> statusCode r < 600)
                \<and> bodyRateLimited env (responseBody r)
        then [MarkAccountRateLimited accountId accountType sessionHash None]
        else [])"
  using assms
  by (simp add: relayRequest_calls_def unauthorizedCalls_def overloadCalls_def)

text \<open>The first scenario of the specification: a 429 with a reset header.\<close>

theorem rate_limit_marked_by_status_or_body_witness:
  "statusCode (example_response 429) \<noteq> 200 \<and> statusCode (example_response 429) \<noteq> 201
   \<and> filter is_rate_limit_call
        (relayRequest_calls example_relay_env ''acc-1'' ''claude-official'' (Some ''hash'')
           (example_response 429))
      = [MarkAccountRateLimited ''acc-1'' ''claude-official'' (Some ''hash'') (Some ''1700000000'')]"
proof -
  have s: "statusCode (example_response 429) \<noteq> 200" "statusCode (example_response 429) \<noteq> 201"
    by (simp_all add: example_response_def)
  have h: "truthy_header (responseHeaders (example_response 429))
             ''anthropic-ratelimit-unified-reset'' = Some ''1700000000''"
    by (simp add: example_response_def truthy_header_def)
  from rate_limit_marked_by_status_or_body[OF s, of example_relay_env "''acc-1''"
      "''claude-official''" "Some ''hash''"]
  show ?thesis using s h by (simp add: example_response_def)
qed

text \<open>
  As stated, C2 fails for a 500 whose body holds the marker: the server-error branch is
  taken and the account is not marked rate limited.
\<close>

theorem rate_limit_counterexample:
  "str_includes (toLowerCase (responseBody (example_response 500))) rateLimitMarker
   \<and> relayRequest_calls example_relay_env ''acc-1'' ''claude-official'' (Some ''hash'')
        (example_response 500)
      = [HandleServerError ''acc-1'' 500]"
proof
  show "str_includes (toLowerCase (responseBody (example_response 500))) rateLimitMarker"
    by (simp add: example_response_def rateLimitMarker_def toLowerCase_def lower_char_def)
  show "relayRequest_calls example_relay_env ''acc-1'' ''claude-official'' (Some ''hash'')
        (example_response 500) = [HandleServerError ''acc-1'' 500]"
    by (simp add: relayRequest_calls_def example_response_def)
qed

subsection \<open>Health updates on success\<close>







subsection \<open>Lines across chunks\<close>

lemma split_on_append_last:
  "split_on d (a @ b) = butlast (split_on d a) @ split_on d (last (split_on d a) @ b)"
proof (induction a)
  case Nil
  then show ?case by simp
next
  case (Cons c cs)
  obtain w ws where sp: "split_on d cs = w # ws"
    by (cases "split_on d cs") auto
  show ?case
  proof (cases "c = d")
    case True
    then show ?thesis using Cons sp by simp
  next
    case False
    show ?thesis
    proof (cases ws)
      case Nil
      then show ?thesis using False Cons sp by simp
    next
      case (Cons v vs)
      then show ?thesis using False Cons.IH sp by simp
    qed
  qed
qed

subsection \<open>The tap\<close>

lemma on_message_start_frame:
  "buffer (on_message_start d u st) = buffer st" "written (on_message_start d u st) = written st"
  by (simp_all add: on_message_start_def Let_def split: option.splits)

lemma on_message_delta_frame:
  "buffer (on_message_delta n st) = buffer st" "written (on_message_delta n st) = written st"
  by (simp_all add: on_message_delta_def Let_def)

lemma on_error_event_frame:
  "buffer (on_error_event d st) = buffer st" "written (on_error_event d st) = written st"
  by (simp_all add: on_error_event_def split: error_message.splits)

lemma on_sse_data_frame:
  "buffer (on_sse_data d st) = buffer st" "written (on_sse_data d st) = written st"
  by (simp_all add: on_sse_data_def on_message_start_frame on_message_delta_frame
        on_error_event_frame Let_def split: option.splits)

lemma on_line_frame:
  "buffer (on_line parse st l) = buffer st" "written (on_line parse st l) = written st"
  by (simp_all add: on_line_def on_sse_data_frame split: option.splits)

lemma usage_part_on_message_start:
  assumes "usage_part st = usage_part st'"
  shows "usage_part (on_message_start d u st) = usage_part (on_message_start d u st')"
  using assms by (simp add: usage_part_def on_message_start_def Let_def split: option.splits)

lemma usage_part_on_message_delta:
  assumes "usage_part st = usage_part st'"
  shows "usage_part (on_message_delta n st) = usage_part (on_message_delta n st')"
  using assms by (simp add: usage_part_def on_message_delta_def Let_def)

lemma usage_part_on_error_event:
  assumes "usage_part st = usage_part st'"
  shows "usage_part (on_error_event d st) = usage_part (on_error_event d st')"
  using assms by (simp add: usage_part_def on_error_event_def split: error_message.splits)

lemma usage_part_on_sse_data:
  assumes "usage_part st = usage_part st'"
  shows "usage_part (on_sse_data d st) = usage_part (on_sse_data d st')"
proof -
  let ?s1 = "\<lambda>st. case message_usage d of
                   Some u \<Rightarrow> if data_type d = Some ''message_start''
                             then on_message_start d u st else st
                 | None \<Rightarrow> st"
  let ?s2 = "\<lambda>st. case delta_output_tokens d of
                   Some n \<Rightarrow> if data_type d = Some ''message_delta''
                             then on_message_delta n st else st
                 | None \<Rightarrow> st"
  have 1: "usage_part (?s1 st) = usage_part (?s1 st')"
    using assms usage_part_on_message_start[OF assms, of d]
    by (simp split: option.splits)
  have 2: "usage_part (?s2 (?s1 st)) = usage_part (?s2 (?s1 st'))"
    using 1 usage_part_on_message_delta[OF 1]
    by (simp split: option.splits)
  show ?thesis
    unfolding on_sse_data_def Let_def
    using 2 usage_part_on_error_event[OF 2, of d] by simp
qed

lemma usage_part_on_line:
  assumes "usage_part st = usage_part st'"
  shows "usage_part (on_line parse st l) = usage_part (on_line parse st' l)"
proof -
  have "usage_part (on_sse_data d st) = usage_part (on_sse_data d st')" for d
    by (rule usage_part_on_sse_data) (rule assms)
  then show ?thesis using assms by (simp add: on_line_def split: option.splits)
qed

lemma usage_part_foldl_on_line:
  assumes "usage_part st = usage_part st'"
  shows "usage_part (foldl (on_line parse) st ls) = usage_part (foldl (on_line parse) st' ls)"
  using assms
proof (induction ls arbitrary: st st')
  case Nil
  then show ?case by simp
next
  case (Cons l ls)
  have "usage_part (on_line parse st l) = usage_part (on_line parse st' l)"
    by (rule usage_part_on_line) (rule Cons.prems)
  then show ?case unfolding foldl_Cons by (rule Cons.IH)
qed

lemma buffer_foldl_on_line: "buffer (foldl (on_line parse) st ls) = buffer st"
  by (induction ls arbitrary: st) (simp_all add: on_line_frame)

lemma on_data_buffer:
  "buffer (on_data parse tr st c) = last (split_on (CHR 0x0A) (buffer st @ c))"
  by (simp add: on_data_def Let_def buffer_foldl_on_line forward_def split: option.splits)

lemma on_data_usage_part:
  "usage_part (on_data parse tr st c)
     = usage_part (foldl (on_line parse) st (butlast (split_on (CHR 0x0A) (buffer st @ c))))"
  unfolding on_data_def Let_def
  by (rule usage_part_foldl_on_line)
     (simp add: usage_part_def forward_def split: option.splits)

text \<open>
  Chunk boundaries do not matter: after any chunks the buffer holds the unfinished last
  line of their concatenation, and the usage state is that of its complete lines.
\<close>

lemma tap_after_chunks_lines:
  "buffer (tap_after_chunks parse tr cs) = last (split_on (CHR 0x0A) (concat cs))
   \<and> usage_part (tap_after_chunks parse tr cs)
       = usage_part (foldl (on_line parse) initial_tap (complete_lines (concat cs)))"
proof (induction cs rule: rev_induct)
  case Nil
  then show ?case by (simp add: tap_after_chunks_def initial_tap_def complete_lines_def)
next
  case (snoc c cs)
  let ?st = "tap_after_chunks parse tr cs"
  let ?nl = "CHR 0x0A"
  have step: "tap_after_chunks parse tr (cs @ [c]) = on_data parse tr ?st c"
    by (simp add: tap_after_chunks_def)
  have sp: "split_on ?nl (concat cs @ c)
      = complete_lines (concat cs) @ split_on ?nl (buffer ?st @ c)"
    using split_on_append_last[of ?nl "concat cs" c] snoc.IH
    by (simp add: complete_lines_def)
  have b: "buffer (on_data parse tr ?st c) = last (split_on ?nl (concat cs @ c))"
    by (simp add: on_data_buffer sp)
  have cl: "complete_lines (concat cs @ c)
      = complete_lines (concat cs) @ butlast (split_on ?nl (buffer ?st @ c))"
    unfolding complete_lines_def[of "concat cs @ c"] sp by (simp add: butlast_append)
  have "usage_part (on_data parse tr ?st c)
      = usage_part (foldl (on_line parse) ?st (butlast (split_on ?nl (buffer ?st @ c))))"
    by (rule on_data_usage_part)
  also have "\<dots> = usage_part (foldl (on_line parse)
        (foldl (on_line parse) initial_tap (complete_lines (concat cs)))
        (butlast (split_on ?nl (buffer ?st @ c))))"
    by (rule usage_part_foldl_on_line) (simp add: snoc.IH)
  also have "\<dots> = usage_part (foldl (on_line parse) initial_tap
        (complete_lines (concat cs @ c)))"
    by (simp add: cl)
  finally show ?case using b by (simp add: step)
qed

subsection \<open>When a usage record exists\<close>

lemma started_on_message_start: "started (on_message_start d u st)"
  by (simp add: started_def on_message_start_def Let_def split: option.splits)

lemma started_on_message_delta: "started (on_message_delta n st) = started st"
  by (simp add: started_def on_message_delta_def Let_def empty_usage_def)

lemma started_on_error_event: "started (on_error_event d st) = started st"
  by (simp add: started_def on_error_event_def split: error_message.splits)

lemma started_on_sse_data:
  "started (on_sse_data d st)
     \<longleftrightarrow> started st \<or> (data_type d = Some ''message_start'' \<and> message_usage d \<noteq> None)"
  unfolding on_sse_data_def Let_def
  by (simp add: started_on_message_start started_on_message_delta started_on_error_event
        split: option.splits)

lemma started_on_line:
  "started (on_line parse st l) \<longleftrightarrow> started st \<or> is_usage_start parse l"
  by (auto simp: on_line_def is_usage_start_def started_on_sse_data split: option.splits)

lemma started_foldl_on_line:
  "started (foldl (on_line parse) st ls)
     \<longleftrightarrow> started st \<or> list_ex (is_usage_start parse) ls"
  by (induction ls arbitrary: st) (auto simp: started_on_line)

lemma started_usage_part:
  "usage_part st = usage_part st' \<Longrightarrow> started st = started st'"
  by (simp add: usage_part_def started_def)

lemma final_records_started: "final_records st \<noteq> [] \<longleftrightarrow> started st"
  by (auto simp: final_records_def started_def)

lemma final_records_tap:
  "final_records (tap_after_chunks parse tr cs) \<noteq> []
     \<longleftrightarrow> list_ex (is_usage_start parse) (complete_lines (concat cs))"
proof -
  have "started (tap_after_chunks parse tr cs)
      = started (foldl (on_line parse) initial_tap (complete_lines (concat cs)))"
    by (rule started_usage_part) (rule conjunct2[OF tap_after_chunks_lines])
  moreover have "\<not> started initial_tap"
    by (simp add: started_def initial_tap_def empty_usage_def)
  ultimately show ?thesis
    by (simp add: final_records_started started_foldl_on_line)
qed

subsection \<open>The merged record\<close>

lemma totalUsage_foldl:
  fixes acc :: usage_totals
  defines "f \<equiv> (\<lambda>acc usage.
              \<lparr>t_input_tokens = t_input_tokens acc + or0 (u_input_tokens usage),
               t_output_tokens = t_output_tokens acc + or0 (u_output_tokens usage),
               t_cache_creation_input_tokens =
                 t_cache_creation_input_tokens acc + or0 (u_cache_creation_input_tokens usage),
               t_cache_read_input_tokens =
                 t_cache_read_input_tokens acc + or0 (u_cache_read_input_tokens usage)\<rparr>)"
  shows "t_input_tokens (foldl f acc recs)
           = t_input_tokens acc + (\<Sum>u\<leftarrow>recs. or0 (u_input_tokens u))"
    and "t_output_tokens (foldl f acc recs)
           = t_output_tokens acc + (\<Sum>u\<leftarrow>recs. or0 (u_output_tokens u))"
    and "t_cache_creation_input_tokens (foldl f acc recs)
           = t_cache_creation_input_tokens acc
             + (\<Sum>u\<leftarrow>recs. or0 (u_cache_creation_input_tokens u))"
    and "t_cache_read_input_tokens (foldl f acc recs)
           = t_cache_read_input_tokens acc + (\<Sum>u\<leftarrow>recs. or0 (u_cache_read_input_tokens u))"
  by (induction recs arbitrary: acc; simp add: f_def)+

lemma finalUsage_sums:
  "input_tokens (finalUsage bm recs) = (\<Sum>u\<leftarrow>recs. or0 (u_input_tokens u))"
  "output_tokens (finalUsage bm recs) = (\<Sum>u\<leftarrow>recs. or0 (u_output_tokens u))"
  "cache_creation_input_tokens (finalUsage bm recs)
     = (\<Sum>u\<leftarrow>recs. or0 (u_cache_creation_input_tokens u))"
  "cache_read_input_tokens (finalUsage bm recs)
     = (\<Sum>u\<leftarrow>recs. or0 (u_cache_read_input_tokens u))"
  "usage_model (finalUsage bm recs)
     = (if truthy_str (u_model (last recs)) then u_model (last recs) else bm)"
  by (simp_all add: finalUsage_def totalUsage_def totalUsage_foldl Let_def split: prod.splits)

subsection \<open>The usage callback\<close>

lemma no_usage_calls:
  "filter is_usage_call (handleErrorResponse env a t h status) = []"
  "filter is_usage_call (sessionWindowCalls a hs) = []"
  "filter is_usage_call (successCalls env a t) = []"
  by (simp_all add: handleErrorResponse_def unauthorizedCalls_def overloadCalls_def
        sessionWindowCalls_def successCalls_def split: option.splits)

lemma usage_calls_on_end:
  "filter is_usage_call (on_end env a t h bm status hs st) = usageCalls a bm st"
  by (simp add: on_end_def no_usage_calls usageCalls_def)

text \<open>
  The usage callback over all streams: it is called from the \<^verbatim>\<open>end\<close> handler only, so once
  when the stream ended or was closed by a timeout with a usage record captured, whatever
  the status of the response was, and never for a stream that failed with an error event.
\<close>

lemma usage_calls_of_stream:
  "filter is_usage_call (makeClaudeStreamRequest_calls env parse tr a t h bm s)
     = (if (outcome s = End \<or> outcome s = Timeout)
           \<and> list_ex (is_usage_start parse) (complete_lines (concat (chunks s)))
        then [UsageCallback
                (finalUsage bm (final_records (tap_after_chunks parse tr (chunks s)))) a]
        else [])"
proof -
  have recs: "list_ex (is_usage_start parse) (complete_lines (concat (chunks s)))
      \<longleftrightarrow> final_records (tap_after_chunks parse tr (chunks s)) \<noteq> []"
    by (rule final_records_tap[symmetric])
  show ?thesis
  proof (cases "outcome s")
    case End
    have "filter is_usage_call (makeClaudeStreamRequest_calls env parse tr a t h bm s)
        = usageCalls a bm (tap_after_chunks parse tr (chunks s))"
      using End
      by (simp add: makeClaudeStreamRequest_calls_def end_calls_def usage_calls_on_end
            no_usage_calls split: option.splits)
    then show ?thesis
      using End recs by (auto simp: usageCalls_def)
  next
    case (Error c)
    then show ?thesis
      by (simp add: makeClaudeStreamRequest_calls_def end_calls_def no_usage_calls
            split: option.splits)
  next
    case Timeout
    have "filter is_usage_call (makeClaudeStreamRequest_calls env parse tr a t h bm s)
        = usageCalls a bm (tap_after_chunks parse tr (chunks s))"
      using Timeout
      by (simp add: makeClaudeStreamRequest_calls_def end_calls_def usage_calls_on_end
            no_usage_calls split: option.splits)
    then show ?thesis
      using Timeout recs by (auto simp: usageCalls_def)
  qed
qed

text \<open>
  Claim C1 (amended).  For a streaming request whose upstream stream ends after a 200
  response, the usage callback is called exactly once when a usage record was captured,
  that is when some complete line of the stream is a \<^verbatim>\<open>data:\<close> line that parses to a
  \<^verbatim>\<open>message_start\<close> event with usage, and not at all otherwise.  Its argument is the merged
  record: each token field is the sum of that field over the captured records, the model
  is that of the last record or else the model of the request, and the account id is
  attached.  For a streaming request whose stream fails with an error event the callback
  is not called.
\<close>

theorem usage_callback_once_when_captured:
  assumes "outcome s = End \<and> stream_statusCode s = Some 200 \<or> (\<exists>code. outcome s = Error code)"
  shows "filter is_usage_call
           (makeClaudeStreamRequest_calls env parse tr accountId accountType sessionHash bm s)
         = (if outcome s = End
               \<and> list_ex (is_usage_start parse) (complete_lines (concat (chunks s)))
            then [UsageCallback
                    (finalUsage bm (final_records (tap_after_chunks parse tr (chunks s))))
                    accountId]
            else [])
     \<and> (let recs = final_records (tap_after_chunks parse tr (chunks s));
             merged = finalUsage bm recs
         in input_tokens merged = (\<Sum>u\<leftarrow>recs. or0 (u_input_tokens u))
          \<and> output_tokens merged = (\<Sum>u\<leftarrow>recs. or0 (u_output_tokens u))
          \<and> cache_creation_input_tokens merged
              = (\<Sum>u\<leftarrow>recs. or0 (u_cache_creation_input_tokens u))
          \<and> cache_read_input_tokens merged = (\<Sum>u\<leftarrow>recs. or0 (u_cache_read_input_tokens u))
          \<and> usage_model merged
              = (if truthy_str (u_model (last recs)) then u_model (last recs) else bm))"
proof -
  from assms have "outcome s \<noteq> Timeout" by auto
  then show ?thesis
    by (simp add: usage_calls_of_stream finalUsage_sums Let_def)
qed

text \<open>The third scenario of the specification, delivered in two chunks.\<close>

theorem usage_callback_once_when_captured_witness:
  "outcome (example_stream 200 example_usage_chunks) = End
   \<and> stream_statusCode (example_stream 200 example_usage_chunks) = Some 200
   \<and> filter is_usage_call
        (makeClaudeStreamRequest_calls example_relay_env example_parse None ''acc-1''
           ''claude-official'' (Some ''hash'') (Some ''claude-sonnet-4-20250514:thinking'')
           (example_stream 200 example_usage_chunks))
      = [UsageCallback
           \<lparr>input_tokens = 10, output_tokens = 42, cache_creation_input_tokens = 5,
            cache_read_input_tokens = 2, usage_model = Some ''claude-sonnet-4-20250514'',
            cache_creation = None\<rparr> ''acc-1'']"
proof -
  let ?s = "example_stream 200 example_usage_chunks"
  have st: "stream_statusCode ?s = Some 200" and e: "outcome ?s = End"
    by (simp_all add: example_stream_def)
  have c: "list_ex (is_usage_start example_parse) (complete_lines (concat (chunks ?s)))"
    by code_simp
  have v: "finalUsage (Some ''claude-sonnet-4-20250514:thinking'')
             (final_records (tap_after_chunks example_parse None (chunks ?s)))
           = \<lparr>input_tokens = 10, output_tokens = 42, cache_creation_input_tokens = 5,
              cache_read_input_tokens = 2, usage_model = Some ''claude-sonnet-4-20250514'',
              cache_creation = None\<rparr>"
    by code_simp
  from usage_callback_once_when_captured[OF disjI1[OF conjI[OF e st]], of example_relay_env example_parse
      None "''acc-1''" "''claude-official''" "Some ''hash''"
      "Some ''claude-sonnet-4-20250514:thinking''"]
  show ?thesis using st e c v by simp
qed

text \<open>
  As stated, C1 fails for a stream that ends after a 200 response without a usage event:
  the health state is cleared as for every success, and the usage callback is not called.
\<close>

theorem usage_callback_counterexample:
  "makeClaudeStreamRequest_calls example_relay_env example_parse None ''acc-1''
     ''claude-official'' (Some ''hash'') (Some ''claude-sonnet-4-20250514'')
     (example_stream 200 example_ping_chunks)
   = [ClearUnauthorizedErrors ''acc-1'', ClearInternalErrors ''acc-1'',
      RemoveAccountRateLimit ''acc-1'' ''claude-official'', RemoveAccountOverload ''acc-1'']"
  by code_simp

text \<open>
  The same stream with its usage events, closed by a timeout instead of ending: the
  \<^verbatim>\<open>end\<close> handler runs all the same, calls the usage callback and clears the health state.
\<close>

lemma timeout_runs_end_handler:
  "makeClaudeStreamRequest_calls example_relay_env example_parse None ''acc-1''
     ''claude-official'' (Some ''hash'') (Some ''claude-sonnet-4-20250514:thinking'')
     ((example_stream 200 example_usage_chunks)\<lparr>outcome := Timeout\<rparr>)
   = [UsageCallback
        \<lparr>input_tokens = 10, output_tokens = 42, cache_creation_input_tokens = 5,
         cache_read_input_tokens = 2, usage_model = Some ''claude-sonnet-4-20250514'',
         cache_creation = None\<rparr> ''acc-1'',
      ClearUnauthorizedErrors ''acc-1'', ClearInternalErrors ''acc-1'',
      RemoveAccountRateLimit ''acc-1'' ''claude-official'', RemoveAccountOverload ''acc-1'']"
  by code_simp

subsection \<open>Proxy agent cache\<close>

lemma cacheKey_password: "cacheKey (proxy\<lparr>password := pw\<rparr>) = cacheKey proxy"
  by (simp add: cacheKey_def)

lemma createProxyAgent_cached:
  assumes "createProxyAgent env (Some proxy) pref st = (Some a, st1)"
  shows "agentCache st1 (cacheKey proxy) = Some a"
  using assms
  by (auto simp: createProxyAgent_def new_agent_def Let_def split: if_splits option.splits)

text \<open>
  Claim C10.  The cache key is built from the type, the host, the port and the user name,
  not from the password.  So when a call has returned an agent, a later call whose
  descriptor differs only in the password returns that same agent object from the cache,
  whatever the new password and the IP preference are; it creates nothing and only counts
  a hit.
\<close>

theorem cached_agent_ignores_password:
  assumes "createProxyAgent env (Some proxy) pref1 st = (Some agent, st1)"
  shows "cacheKey (proxy\<lparr>password := pw\<rparr>) = cacheKey proxy
     \<and> createProxyAgent env (Some (proxy\<lparr>password := pw\<rparr>)) pref2 st1
           = (Some agent, st1\<lparr>cache_hits := cache_hits st1 + 1\<rparr>)"
proof -
  have c: "agentCache st1 (cacheKey proxy) = Some agent"
    using assms by (rule createProxyAgent_cached)
  have v: "\<not> (proxy_type proxy = [] \<or> proxy_host proxy = [] \<or> \<not> truthy_port (proxy_port proxy))"
    using assms by (auto simp: createProxyAgent_def split: if_splits)
  show ?thesis
    using c v by (simp add: createProxyAgent_def cacheKey_password)
qed

text \<open>
  The proxy of the specification's tunnel scenario: the first call creates agent 0, the
  second one, with another password and another IP preference, returns agent 0 again.
\<close>

theorem cached_agent_ignores_password_witness:
  "createProxyAgent example_proxy_env (Some example_proxy) PrefUndefined empty_proxy_helper
     = (Some \<lparr>agent_id = 0, agent_class = HttpsProxyAgent, agent_url = ''http://u:p@p:8080'',
              agent_family = Some 4\<rparr>,
        empty_proxy_helper
          \<lparr>agentCache := [''http://p:8080:u'' \<mapsto>
               \<lparr>agent_id = 0, agent_class = HttpsProxyAgent, agent_url = ''http://u:p@p:8080'',
                agent_family = Some 4\<rparr>],
           cache_misses := 1, next_agent_id := 1\<rparr>)
   \<and> fst (createProxyAgent example_proxy_env
            (Some (example_proxy\<lparr>password := Some ''changed''\<rparr>)) (PrefNumber 6)
            (snd (createProxyAgent example_proxy_env (Some example_proxy) PrefUndefined
                    empty_proxy_helper)))
       = Some \<lparr>agent_id = 0, agent_class = HttpsProxyAgent, agent_url = ''http://u:p@p:8080'',
               agent_family = Some 4\<rparr>"
proof -
  let ?a = "\<lparr>agent_id = 0, agent_class = HttpsProxyAgent, agent_url = ''http://u:p@p:8080'',
              agent_family = Some 4\<rparr>"
  let ?st1 = "empty_proxy_helper
          \<lparr>agentCache := [''http://p:8080:u'' \<mapsto> ?a], cache_misses := 1, next_agent_id := 1\<rparr>"
  have first: "createProxyAgent example_proxy_env (Some example_proxy) PrefUndefined
                 empty_proxy_helper = (Some ?a, ?st1)"
    by (simp add: createProxyAgent_def example_proxy_def example_proxy_env_def
          empty_proxy_helper_def new_agent_def cacheKey_def proxy_auth_def truthy_str_def
          getIPFamilyPreference_def Let_def show_nat.simps)
  from cached_agent_ignores_password[OF first, of "Some ''changed''" "PrefNumber 6"]
  show ?thesis using first by simp
qed

subsection \<open>Session pool\<close>

text \<open>The invariant in terms of lookups.\<close>

lemma pool_invariant_lookup:
  "pool_invariant st \<longleftrightarrow>
     distinct (map fst (sessions st))
     \<and> (\<forall>key sessionInfo. map_of (sessions st) key = Some sessionInfo \<longrightarrow>
            entry_ok st key sessionInfo)"
  unfolding pool_invariant_def
  by (rule conj_cong[OF refl]) (auto simp: map_of_eq_Some_iff)

lemma pool_invariantI:
  assumes "distinct (map fst (sessions st))"
    and "\<And>key sessionInfo. map_of (sessions st) key = Some sessionInfo
            \<Longrightarrow> entry_ok st key sessionInfo"
  shows "pool_invariant st"
  unfolding pool_invariant_lookup using assms by blast

lemma pool_invariantD:
  assumes "pool_invariant st"
  shows "distinct (map fst (sessions st))"
    and "map_of (sessions st) key = Some sessionInfo \<Longrightarrow> entry_ok st key sessionInfo"
  using assms unfolding pool_invariant_lookup by blast+

text \<open>An entry stays good while the sessions and their keys stay the same.\<close>

lemma entry_ok_cong:
  assumes "entry_ok st key sessionInfo"
    and "next_session st' = next_session st"
    and "\<And>sid. listener_key (session_store st' sid) = listener_key (session_store st sid)"
  shows "entry_ok st' key sessionInfo"
  using assms by (simp add: entry_ok_def)

lemma pool_invariant_new: "pool_invariant new_client"
  by (simp add: pool_invariant_def new_client_def)

lemma pool_invariant_delete:
  assumes "pool_invariant st"
  shows "pool_invariant (st\<lparr>sessions := AList.delete k (sessions st)\<rparr>)"
proof (rule pool_invariantI)
  show "distinct (map fst (sessions (st\<lparr>sessions := AList.delete k (sessions st)\<rparr>)))"
    using pool_invariantD(1)[OF assms] by (simp add: distinct_delete)
next
  fix key sessionInfo
  assume "map_of (sessions (st\<lparr>sessions := AList.delete k (sessions st)\<rparr>)) key = Some sessionInfo"
  then have "map_of (sessions st) key = Some sessionInfo"
    by (simp add: delete_conv' del: map_of_eq_Some_iff split: if_splits)
  then have "entry_ok st key sessionInfo" by (rule pool_invariantD(2)[OF assms])
  then show "entry_ok (st\<lparr>sessions := AList.delete k (sessions st)\<rparr>) key sessionInfo"
    by (rule entry_ok_cong) simp_all
qed

lemma pool_invariant_event:
  assumes "pool_invariant st"
  shows "pool_invariant (on_session_event sid ev st)"
  using assms by (simp add: on_session_event_def pool_invariant_delete split: option.splits)

lemma pool_invariant_flags:
  assumes "pool_invariant st"
  shows "pool_invariant (set_session_flags sid c d st)"
proof (rule pool_invariantI)
  show "distinct (map fst (sessions (set_session_flags sid c d st)))"
    using pool_invariantD(1)[OF assms] by (simp add: set_session_flags_def)
next
  fix key sessionInfo
  assume "map_of (sessions (set_session_flags sid c d st)) key = Some sessionInfo"
  then have "map_of (sessions st) key = Some sessionInfo"
    by (simp add: set_session_flags_def del: map_of_eq_Some_iff)
  then have "entry_ok st key sessionInfo" by (rule pool_invariantD(2)[OF assms])
  then show "entry_ok (set_session_flags sid c d st) key sessionInfo"
    by (rule entry_ok_cong) (simp_all add: set_session_flags_def)
qed

lemma listener_key_close_sessions:
  "listener_key (close_sessions sids store sid) = listener_key (store sid)"
  by (induction sids arbitrary: store) simp_all

lemma map_of_filter_Some:
  assumes "distinct (map fst al)" and "map_of (filter P al) k = Some v"
  shows "map_of al k = Some v"
proof -
  from assms(2) have "(k, v) \<in> set (filter P al)" by (rule map_of_SomeD)
  then have "(k, v) \<in> set al" by simp
  with assms(1) show ?thesis by simp
qed

lemma pool_invariant_cleanup:
  assumes "pool_invariant st"
  shows "pool_invariant (cleanup now st)"
proof (rule pool_invariantI)
  let ?P = "\<lambda>(hostname, sessionInfo). \<not> idle now sessionInfo"
  have d: "distinct (map fst (sessions st))" by (rule pool_invariantD(1)[OF assms])
  have s: "sessions (cleanup now st) = filter ?P (sessions st)"
    by (simp add: cleanup_def)
  show "distinct (map fst (sessions (cleanup now st)))"
    unfolding s using d by (rule distinct_map_filter)
  fix key sessionInfo
  assume "map_of (sessions (cleanup now st)) key = Some sessionInfo"
  then have "map_of (sessions st) key = Some sessionInfo"
    unfolding s by (rule map_of_filter_Some[OF d])
  then have "entry_ok st key sessionInfo" by (rule pool_invariantD(2)[OF assms])
  then show "entry_ok (cleanup now st) key sessionInfo"
    by (rule entry_ok_cong) (simp_all add: cleanup_def listener_key_close_sessions)
qed

text \<open>Storing a session that has just been created keeps the invariant.\<close>

lemma pool_invariant_store_new:
  assumes "pool_invariant st"
  shows "pool_invariant
           (st\<lparr>session_store := (session_store st)
                  (next_session st := \<lparr>closed_flag = False, destroyed = False,
                                       listener_key = Some k\<rparr>),
               next_session := next_session st + 1,
               sessions := AList.update k \<lparr>session = next_session st, lastUsed = now\<rparr>
                             (sessions st)\<rparr>)"
    (is "pool_invariant ?st'")
proof (rule pool_invariantI)
  show "distinct (map fst (sessions ?st'))"
    using pool_invariantD(1)[OF assms] by (simp add: distinct_update)
next
  fix key sessionInfo
  assume "map_of (sessions ?st') key = Some sessionInfo"
  then consider (new) "key = k" "sessionInfo = \<lparr>session = next_session st, lastUsed = now\<rparr>"
    | (old) "key \<noteq> k" "map_of (sessions st) key = Some sessionInfo"
    by (auto simp add: update_conv' simp del: map_of_eq_Some_iff split: if_splits)
  then show "entry_ok ?st' key sessionInfo"
  proof cases
    case new
    then show ?thesis by (simp add: entry_ok_def)
  next
    case old
    have ok: "entry_ok st key sessionInfo" by (rule pool_invariantD(2)[OF assms old(2)])
    then have lt: "session sessionInfo < next_session st" by (simp add: entry_ok_def)
    show ?thesis
      unfolding entry_ok_def
    proof (intro conjI allI impI)
      show "session sessionInfo < next_session ?st'" using lt by simp
      show "listener_key (session_store ?st' (session sessionInfo)) = Some key"
        using ok lt by (simp add: entry_ok_def)
      fix sid
      assume "sid < next_session ?st'"
        and l: "listener_key (session_store ?st' sid) = Some key"
      then have "sid \<noteq> next_session st" using old(1) by auto
      then have "sid < next_session st" "listener_key (session_store st sid) = Some key"
        using \<open>sid < next_session ?st'\<close> l by simp_all
      then show "sid \<le> session sessionInfo" using ok by (simp add: entry_ok_def)
    qed
  qed
qed

lemma pool_invariant_touch:
  assumes "pool_invariant st" and "map_of (sessions st) k = Some sessionInfo"
  shows "pool_invariant
           (st\<lparr>sessions := AList.update k (sessionInfo\<lparr>lastUsed := now\<rparr>) (sessions st)\<rparr>)"
    (is "pool_invariant ?st'")
proof (rule pool_invariantI)
  show "distinct (map fst (sessions ?st'))"
    using pool_invariantD(1)[OF assms(1)] by (simp add: distinct_update)
next
  fix key info
  assume "map_of (sessions ?st') key = Some info"
  then have m: "((map_of (sessions st))(k \<mapsto> sessionInfo\<lparr>lastUsed := now\<rparr>)) key = Some info"
    by (simp add: update_conv' del: map_of_eq_Some_iff)
  show "entry_ok ?st' key info"
  proof (cases "key = k")
    case True
    with m have i: "info = sessionInfo\<lparr>lastUsed := now\<rparr>" by simp
    have "entry_ok st k sessionInfo" by (rule pool_invariantD(2)[OF assms])
    then show ?thesis unfolding i True by (simp add: entry_ok_def)
  next
    case False
    with m have "map_of (sessions st) key = Some info" by (simp del: map_of_eq_Some_iff)
    then have "entry_ok st key info" by (rule pool_invariantD(2)[OF assms(1)])
    then show ?thesis by (rule entry_ok_cong) simp_all
  qed
qed

lemma getSession_cases:
  obtains (reuse) sessionInfo where
      "map_of (sessions st) (sessionKey hostname port) = Some sessionInfo"
      "\<not> closed_flag (session_store st (session sessionInfo))"
      "\<not> destroyed (session_store st (session sessionInfo))"
      "getSession hostname port created now st
         = (Inr (session sessionInfo),
            st\<lparr>sessions := AList.update (sessionKey hostname port)
                              (sessionInfo\<lparr>lastUsed := now\<rparr>) (sessions st)\<rparr>)"
  | (failed) err where
      "created = CreateFailed err"
      "getSession hostname port created now st
         = (Inl err, st\<lparr>sessions := AList.delete (sessionKey hostname port) (sessions st)\<rparr>)"
  | (fresh)
      "created = Connected"
      "getSession hostname port created now st
         = (Inr (next_session st),
            st\<lparr>sessions := AList.delete (sessionKey hostname port) (sessions st)\<rparr>
              \<lparr>session_store := (session_store st)
                  (next_session st := \<lparr>closed_flag = False, destroyed = False,
                                       listener_key = Some (sessionKey hostname port)\<rparr>),
               next_session := next_session st + 1,
               sessions := AList.update (sessionKey hostname port)
                             \<lparr>session = next_session st, lastUsed = now\<rparr>
                             (AList.delete (sessionKey hostname port) (sessions st))\<rparr>)"
proof (cases "case map_of (sessions st) (sessionKey hostname port) of
                  None \<Rightarrow> False
                | Some sessionInfo \<Rightarrow>
                    \<not> closed_flag (session_store st (session sessionInfo))
                    \<and> \<not> destroyed (session_store st (session sessionInfo))")
  case True
  then obtain sessionInfo where
    "map_of (sessions st) (sessionKey hostname port) = Some sessionInfo"
    "\<not> closed_flag (session_store st (session sessionInfo))"
    "\<not> destroyed (session_store st (session sessionInfo))"
    by (auto split: option.splits)
  then show ?thesis
    using reuse[of sessionInfo] by (simp add: getSession_def Let_def del: map_of_eq_Some_iff)
next
  case False
  show ?thesis
  proof (cases created)
    case Connected
    then show ?thesis using False fresh by (simp add: getSession_def Let_def)
  next
    case (CreateFailed err)
    then show ?thesis using False failed[of err] by (simp add: getSession_def Let_def)
  qed
qed

lemma pool_invariant_getSession:
  assumes "pool_invariant st"
  shows "pool_invariant (snd (getSession hostname port created now st))"
proof (cases rule: getSession_cases[of st hostname port created now])
  case (reuse sessionInfo)
  then show ?thesis using pool_invariant_touch[OF assms reuse(1)] by simp
next
  case (failed err)
  then show ?thesis using pool_invariant_delete[OF assms] by simp
next
  case fresh
  let ?st1 = "st\<lparr>sessions := AList.delete (sessionKey hostname port) (sessions st)\<rparr>"
  have "pool_invariant ?st1" by (rule pool_invariant_delete[OF assms])
  from pool_invariant_store_new[OF this, of "sessionKey hostname port" now]
  show ?thesis using fresh by simp
qed

lemma pool_invariant_step:
  "pool_invariant st \<Longrightarrow> pool_invariant (run_step st step)"
  by (cases step)
     (simp_all add: pool_invariant_getSession pool_invariant_event pool_invariant_flags
        pool_invariant_cleanup)

lemma pool_invariant_reachable: "pool_invariant (client_after steps)"
  unfolding client_after_def
  by (induction steps rule: rev_induct) (simp_all add: pool_invariant_new pool_invariant_step)

lemma evicted_by_event:
  assumes "listener_key (session_store st sid) = Some key"
  shows "map_of (sessions (on_session_event sid ev st)) key = None"
  using assms by (simp add: on_session_event_def delete_conv')

text \<open>
  Claim C9.  In every client reached from the empty pool by lookups, session events, flag
  changes and cleanups, a lookup that returns a session returns one that is neither closed
  nor destroyed; the pool then holds that session under the \<^verbatim>\<open>host:port\<close> key, and an
  \<^verbatim>\<open>error\<close>, \<^verbatim>\<open>goaway\<close> or \<^verbatim>\<open>close\<close> event of the session removes the entry.  The session is
  the cached one only if that was neither closed nor destroyed; otherwise it is a new one,
  stored after the old entry was deleted, and when the creation fails the old entry is gone
  all the same.  The pool keeps its invariant: one entry per key at most, which refers to
  the youngest session created for the key.
\<close>

theorem getSession_returns_open_session:
  assumes "st = client_after steps"
    and "getSession hostname port created now st = (r, st')"
  shows "pool_invariant st'
     \<and> (case r of
          Inl err \<Rightarrow>
            created = CreateFailed err
            \<and> map_of (sessions st') (sessionKey hostname port) = None
        | Inr sid \<Rightarrow>
            \<not> closed_flag (session_store st' sid) \<and> \<not> destroyed (session_store st' sid)
            \<and> map_of (sessions st') (sessionKey hostname port)
                = Some \<lparr>session = sid, lastUsed = now\<rparr>
            \<and> (\<forall>ev. map_of (sessions (on_session_event sid ev st')) (sessionKey hostname port)
                       = None)
            \<and> (if sid < next_session st
                then next_session st' = next_session st
                     \<and> (\<exists>sessionInfo.
                           map_of (sessions st) (sessionKey hostname port) = Some sessionInfo
                           \<and> session sessionInfo = sid
                           \<and> \<not> closed_flag (session_store st sid)
                           \<and> \<not> destroyed (session_store st sid))
                else sid = next_session st \<and> next_session st' = next_session st + 1
                     \<and> listener_key (session_store st' sid) = Some (sessionKey hostname port)))"
proof -
  let ?key = "sessionKey hostname port"
  have inv: "pool_invariant st" using assms(1) by (simp add: pool_invariant_reachable)
  have inv': "pool_invariant st'"
    using pool_invariant_getSession[OF inv, of hostname port created now] assms(2) by simp
  show ?thesis
  proof (cases rule: getSession_cases[of st hostname port created now])
    case (reuse sessionInfo)
    have ok: "entry_ok st ?key sessionInfo" by (rule pool_invariantD(2)[OF inv reuse(1)])
    from reuse(4) assms(2) have r: "r = Inr (session sessionInfo)"
      and st': "st' = st\<lparr>sessions := AList.update ?key (sessionInfo\<lparr>lastUsed := now\<rparr>)
                                     (sessions st)\<rparr>"
      by simp_all
    have l: "listener_key (session_store st' (session sessionInfo)) = Some ?key"
      using ok by (simp add: st' entry_ok_def)
    have e: "\<forall>ev. map_of (sessions (on_session_event (session sessionInfo) ev st')) ?key = None"
      using evicted_by_event[OF l] by blast
    have m: "map_of (sessions st') ?key = Some \<lparr>session = session sessionInfo, lastUsed = now\<rparr>"
      by (simp add: st' update_conv')
    have lt: "session sessionInfo < next_session st" using ok by (simp add: entry_ok_def)
    have old: "\<exists>info. map_of (sessions st) ?key = Some info
                 \<and> session info = session sessionInfo
                 \<and> \<not> closed_flag (session_store st (session sessionInfo))
                 \<and> \<not> destroyed (session_store st (session sessionInfo))"
      using reuse(1,2,3) by blast
    have fl: "\<not> closed_flag (session_store st' (session sessionInfo))"
        "\<not> destroyed (session_store st' (session sessionInfo))"
        "next_session st' = next_session st"
      using reuse(2,3) by (simp_all add: st')
    show ?thesis
      unfolding r using inv' fl m e lt old by simp
  next
    case (failed err)
    from failed(2) assms(2) have "r = Inl err"
      and "st' = st\<lparr>sessions := AList.delete ?key (sessions st)\<rparr>"
      by simp_all
    then show ?thesis using inv' failed(1) by (simp add: delete_conv')
  next
    case fresh
    from fresh(2) assms(2) have r: "r = Inr (next_session st)"
      and st': "st' = st\<lparr>sessions := AList.delete ?key (sessions st)\<rparr>
              \<lparr>session_store := (session_store st)
                  (next_session st := \<lparr>closed_flag = False, destroyed = False,
                                       listener_key = Some ?key\<rparr>),
               next_session := next_session st + 1,
               sessions := AList.update ?key \<lparr>session = next_session st, lastUsed = now\<rparr>
                             (AList.delete ?key (sessions st))\<rparr>"
      by simp_all
    have l: "listener_key (session_store st' (next_session st)) = Some ?key"
      by (simp add: st')
    have e: "\<forall>ev. map_of (sessions (on_session_event (next_session st) ev st')) ?key = None"
      using evicted_by_event[OF l] by blast
    have m: "map_of (sessions st') ?key = Some \<lparr>session = next_session st, lastUsed = now\<rparr>"
      by (simp add: st' update_conv')
    have fl: "\<not> closed_flag (session_store st' (next_session st))"
        "\<not> destroyed (session_store st' (next_session st))"
        "next_session st' = next_session st + 1"
      by (simp_all add: st')
    show ?thesis
      unfolding r using inv' fl m e l by simp
  qed
qed

text \<open>
  A session is created for \<^verbatim>\<open>api.anthropic.com\<close>, then closed and destroyed; the next lookup
  creates session 1 and stores it under the same key.
\<close>

theorem getSession_returns_open_session_witness:
  "fst (getSession ''api.anthropic.com'' (Some (PortString ''443'')) Connected 7
          (client_after [GetSession ''api.anthropic.com'' None Connected 1, SetFlags 0 True True]))
     = Inr 1
   \<and> pool_invariant
       (snd (getSession ''api.anthropic.com'' (Some (PortString ''443'')) Connected 7
          (client_after [GetSession ''api.anthropic.com'' None Connected 1, SetFlags 0 True True])))
   \<and> map_of (sessions
       (snd (getSession ''api.anthropic.com'' (Some (PortString ''443'')) Connected 7
          (client_after [GetSession ''api.anthropic.com'' None Connected 1, SetFlags 0 True True]))))
        ''api.anthropic.com:443''
     = Some \<lparr>session = 1, lastUsed = 7\<rparr>"
proof -
  let ?st = "client_after [GetSession ''api.anthropic.com'' None Connected 1, SetFlags 0 True True]"
  let ?g = "getSession ''api.anthropic.com'' (Some (PortString ''443'')) Connected 7 ?st"
  have r: "fst ?g = Inr 1" by code_simp
  have k: "sessionKey ''api.anthropic.com'' (Some (PortString ''443'')) = ''api.anthropic.com:443''"
    by (simp add: sessionKey_def)
  from getSession_returns_open_session[OF refl prod.collapse[symmetric], of "''api.anthropic.com''"
      "Some (PortString ''443'')" Connected 7
      "[GetSession ''api.anthropic.com'' None Connected 1, SetFlags 0 True True]"]
  show ?thesis unfolding r k by simp
qed

subsection \<open>Session creation through a proxy\<close>

lemma await_session_no_connect:
  "fst (await_session hostname opts sreply) =
     SetSessionTimeout (case opt_timeout opts of
                          None \<Rightarrow> 30000 | Some t \<Rightarrow> if t \<noteq> 0 then t else 30000)
     # (if sreply = SessionTimedOut then [SessionClose] else [])"
  "snd (await_session hostname opts sreply) = Resolved \<longleftrightarrow> sreply = SessionConnected"
  by (simp_all add: await_session_def Let_def split: session_reply.splits)

text \<open>
  Claim C8.  When \<^verbatim>\<open>createSession\<close> is given an agent whose proxy is a URL, the first thing
  it does is the \<^verbatim>\<open>CONNECT host:port\<close> request to the proxy, so no TLS connection is opened
  before it.  The request carries \<^verbatim>\<open>Proxy-Authorization: Basic base64(user:pass)\<close> exactly
  when the proxy URL has both a user name and a password.  If the proxy answers with a
  status other than 200, the tunnel socket is destroyed, nothing else is done and the
  creation is rejected.  If it answers 200, the HTTP/2 session is connected over a TLS
  socket on the tunnel with ALPN \<^verbatim>\<open>h2\<close> and the target host as server name, and the creation
  resolves exactly when that session connects.
\<close>

theorem proxy_connect_before_tls:
  assumes "opt_agent opts = Some (ProxyURL proxyUrl)"
  shows "(\<exists>rest. fst (createSession hostname opts creply sreply)
                  = ConnectRequest (url_hostname proxyUrl) (proxyPort proxyUrl)
                      (hostname @ '':'' @ targetPort opts) (connectHeaders hostname opts proxyUrl)
                    # rest)
     \<and> map_of (connectHeaders hostname opts proxyUrl) ''Proxy-Authorization''
         = (if url_username proxyUrl \<noteq> [] \<and> url_password proxyUrl \<noteq> []
            then Some (''Basic '' @ base64 (url_username proxyUrl @ '':'' @ url_password proxyUrl))
            else None)
     \<and> (\<forall>status. creply = ConnectResponse status \<and> status \<noteq> 200 \<longrightarrow>
            createSession hostname opts creply sreply
              = ([ConnectRequest (url_hostname proxyUrl) (proxyPort proxyUrl)
                    (hostname @ '':'' @ targetPort opts) (connectHeaders hostname opts proxyUrl),
                  SocketDestroy],
                 Rejected (''Proxy CONNECT failed with status '' @ show_nat status)))
     \<and> (creply = ConnectResponse 200 \<longrightarrow>
            (\<exists>rest. fst (createSession hostname opts creply sreply)
                      = ConnectRequest (url_hostname proxyUrl) (proxyPort proxyUrl)
                          (hostname @ '':'' @ targetPort opts)
                          (connectHeaders hostname opts proxyUrl)
                        # Http2ConnectOverTunnel
                            (''https://'' @ hostname @ '':'' @ targetPort opts) hostname [''h2'']
                        # rest
                    \<and> list_all (\<lambda>a. \<not> is_tls_action a) rest)
            \<and> (snd (createSession hostname opts creply sreply) = Resolved
                 \<longleftrightarrow> sreply = SessionConnected))"
proof (intro conjI allI impI)
  show "\<exists>rest. fst (createSession hostname opts creply sreply)
                  = ConnectRequest (url_hostname proxyUrl) (proxyPort proxyUrl)
                      (hostname @ '':'' @ targetPort opts) (connectHeaders hostname opts proxyUrl)
                    # rest"
    using assms
    by (auto simp: createSession_def Let_def split: connect_reply.splits prod.splits)
next
  show "map_of (connectHeaders hostname opts proxyUrl) ''Proxy-Authorization''
         = (if url_username proxyUrl \<noteq> [] \<and> url_password proxyUrl \<noteq> []
            then Some (''Basic '' @ base64 (url_username proxyUrl @ '':'' @ url_password proxyUrl))
            else None)"
    by (simp add: connectHeaders_def)
next
  fix status
  assume "creply = ConnectResponse status \<and> status \<noteq> 200"
  then show "createSession hostname opts creply sreply
              = ([ConnectRequest (url_hostname proxyUrl) (proxyPort proxyUrl)
                    (hostname @ '':'' @ targetPort opts) (connectHeaders hostname opts proxyUrl),
                  SocketDestroy],
                 Rejected (''Proxy CONNECT failed with status '' @ show_nat status))"
    using assms by (simp add: createSession_def Let_def)
next
  assume c: "creply = ConnectResponse 200"
  have cs: "createSession hostname opts creply sreply
      = (ConnectRequest (url_hostname proxyUrl) (proxyPort proxyUrl)
           (hostname @ '':'' @ targetPort opts) (connectHeaders hostname opts proxyUrl)
         # Http2ConnectOverTunnel (''https://'' @ hostname @ '':'' @ targetPort opts)
             hostname [''h2'']
         # fst (await_session hostname opts sreply),
         snd (await_session hostname opts sreply))"
    using assms c by (simp add: createSession_def Let_def split: prod.splits)
  have "list_all (\<lambda>a. \<not> is_tls_action a) (fst (await_session hostname opts sreply))"
    by (simp add: await_session_no_connect)
  then show "\<exists>rest. fst (createSession hostname opts creply sreply)
                      = ConnectRequest (url_hostname proxyUrl) (proxyPort proxyUrl)
                          (hostname @ '':'' @ targetPort opts)
                          (connectHeaders hostname opts proxyUrl)
                        # Http2ConnectOverTunnel
                            (''https://'' @ hostname @ '':'' @ targetPort opts) hostname [''h2'']
                        # rest
                    \<and> list_all (\<lambda>a. \<not> is_tls_action a) rest"
    unfolding cs by simp
  show "snd (createSession hostname opts creply sreply) = Resolved
                 \<longleftrightarrow> sreply = SessionConnected"
    unfolding cs by (simp add: await_session_no_connect)
qed

text \<open>The sixth scenario of the specification: the proxy \<^verbatim>\<open>http://u:p@p:8080\<close>.\<close>

theorem proxy_connect_before_tls_witness:
  "opt_agent example_session_options = Some (ProxyURL example_proxy_url)
   \<and> createSession ''api.anthropic.com'' example_session_options (ConnectResponse 200)
        SessionConnected
      = ([ConnectRequest ''p'' ''8080'' ''api.anthropic.com:443''
            [(''Host'', ''api.anthropic.com:443''), (''Proxy-Authorization'', ''Basic dTpw'')],
          Http2ConnectOverTunnel ''https://api.anthropic.com:443'' ''api.anthropic.com'' [''h2''],
          SetSessionTimeout 600000],
         Resolved)
   \<and> createSession ''api.anthropic.com'' example_session_options (ConnectResponse 407)
        SessionConnected
      = ([ConnectRequest ''p'' ''8080'' ''api.anthropic.com:443''
            [(''Host'', ''api.anthropic.com:443''), (''Proxy-Authorization'', ''Basic dTpw'')],
          SocketDestroy],
         Rejected ''Proxy CONNECT failed with status 407'')"
proof -
  have a: "opt_agent example_session_options = Some (ProxyURL example_proxy_url)"
    by (simp add: example_session_options_def)
  have h: "connectHeaders ''api.anthropic.com'' example_session_options example_proxy_url
      = [(''Host'', ''api.anthropic.com:443''), (''Proxy-Authorization'', ''Basic dTpw'')]"
    by (simp add: connectHeaders_def example_proxy_url_def example_session_options_def
          targetPort_def base64_def base64_alphabet_def)
  have p: "proxyPort example_proxy_url = ''8080''" "url_hostname example_proxy_url = ''p''"
    "targetPort example_session_options = ''443''"
    by (simp_all add: proxyPort_def example_proxy_url_def targetPort_def
          example_session_options_def)
  have s: "show_nat 407 = ''407''" by (simp add: show_nat.simps)
  have t: "opt_timeout example_session_options = Some 600000"
    by (simp add: example_session_options_def)
  have ok: "createSession ''api.anthropic.com'' example_session_options (ConnectResponse 200)
        SessionConnected
      = ([ConnectRequest ''p'' ''8080'' ''api.anthropic.com:443''
            [(''Host'', ''api.anthropic.com:443''), (''Proxy-Authorization'', ''Basic dTpw'')],
          Http2ConnectOverTunnel ''https://api.anthropic.com:443'' ''api.anthropic.com'' [''h2''],
          SetSessionTimeout 600000],
         Resolved)"
    by (simp add: createSession_def await_session_def Let_def a h p t)
  from proxy_connect_before_tls[OF a, of "''api.anthropic.com''" "ConnectResponse 407"
      SessionConnected]
  have "createSession ''api.anthropic.com'' example_session_options (ConnectResponse 407)
        SessionConnected
      = ([ConnectRequest ''p'' ''8080'' ''api.anthropic.com:443''
            [(''Host'', ''api.anthropic.com:443''), (''Proxy-Authorization'', ''Basic dTpw'')],
          SocketDestroy],
         Rejected ''Proxy CONNECT failed with status 407'')"
    by (simp add: h p s)
  with a ok show ?thesis by simp
qed

end
